theory Spec2Isabelle
  imports Main "HOL-Library.Word"
begin

unbundle bit_operations_syntax

section \<open>hpsahba: querying HP Smart Array controllers (main.c)\<close>

text \<open>
  The program is a single C file. It builds a BMIC passthrough command, submits it with
  the CCISS_PASSTHRU ioctl, and prints the decoded answers. The embedding follows the
  file top to bottom: the constants it takes from headers, the command envelope, the
  command builder, the error dump, the string helpers, the report and \<open>main\<close>.
\<close>

subsection \<open>Constants taken from headers\<close>

text \<open>
  \<open>hpsa.h\<close> supplies the BMIC opcodes, the flag mask, the field widths and the two
  response structures. The code under study only names them, so they are parameters
  of the model, gathered in one record. \<open>sizeof_identify\<close> and \<open>sizeof_params\<close>
  stand for \<open>sizeof(struct bmic_identify_controller)\<close> and
  \<open>sizeof(struct bmic_controller_parameters)\<close>.
\<close>

record hpsa_h =
  BMIC_READ :: "8 word"
  BMIC_WRITE :: "8 word"
  BMIC_IDENTIFY_CONTROLLER :: "8 word"
  BMIC_SENSE_CONTROLLER_PARAMETERS :: "8 word"
  YET_MORE_CTLR_FLAG_HBA_MODE_SUPP :: "32 word"
  VENDOR_ID_LEN :: nat
  PRODUCT_ID_LEN :: nat
  SOFTWARE_NAME_LEN :: nat
  HARDWARE_NAME_LEN :: nat
  FIRMWARE_REV_LEN :: nat
  MAX_STR_BUF_LEN :: nat
  sizeof_identify :: "64 word"
  sizeof_params :: "64 word"

text \<open>
  The enumerations of \<open>linux/cciss_defs.h\<close> that \<open>fill_cmd\<close> stores in the bit
  fields of the request block.
\<close>

datatype xfer_direction = XFER_NONE | XFER_WRITE | XFER_READ | XFER_RSVD
datatype cmd_type = TYPE_CMD | TYPE_MSG
datatype cmd_attribute = ATTR_UNTAGGED | ATTR_SIMPLE | ATTR_HEADOFQUEUE | ATTR_ORDERED | ATTR_ACA

subsection \<open>The command envelope (IOCTL_Command_struct)\<close>

record Type_struct =
  Type :: cmd_type
  Attribute :: cmd_attribute
  Direction :: xfer_direction

record RequestBlock_struct =
  CDBLen :: "8 word"
  Type_field :: Type_struct
  Timeout :: "16 word"
  CDB :: "8 word list"

record ErrorInfo_struct =
  ScsiStatus :: "8 word"
  SenseLen :: "8 word"
  CommandStatus :: "16 word"
  ResidualCnt :: "32 word"
  SenseInfo :: "8 word list"

text \<open>
  \<open>buf\<close> is a user-space pointer; the model keeps it as an address. \<open>buf_size\<close> is
  the 16-bit \<open>WORD\<close> of the kernel interface.
\<close>

record IOCTL_Command_struct =
  Request :: RequestBlock_struct
  error_info :: ErrorInfo_struct
  buf_size :: "16 word"
  buf :: nat

text \<open>\<open>IOCTL_Command_struct cmd = {0}\<close>: every member zero, the CDB sixteen zero bytes.\<close>

definition zero_ErrorInfo :: "nat \<Rightarrow> ErrorInfo_struct" where
  "zero_ErrorInfo sense_bytes =
     \<lparr>ScsiStatus = 0, SenseLen = 0, CommandStatus = 0, ResidualCnt = 0,
      SenseInfo = replicate sense_bytes 0\<rparr>"

definition zero_cmd :: "nat \<Rightarrow> IOCTL_Command_struct" where
  "zero_cmd sense_bytes =
     \<lparr>Request = \<lparr>CDBLen = 0,
                  Type_field = \<lparr>Type = TYPE_CMD, Attribute = ATTR_UNTAGGED, Direction = XFER_NONE\<rparr>,
                  Timeout = 0, CDB = replicate 16 0\<rparr>,
      error_info = zero_ErrorInfo sense_bytes,
      buf_size = 0, buf = 0\<rparr>"

subsection \<open>The command builder\<close>

text \<open>
  A failed \<open>assert\<close> aborts the process. The two assertions of the builder are the two
  values of \<open>assertion\<close>; a function that can hit one returns \<open>assertion + 'a\<close>.
\<close>

datatype assertion = Assert_size_le_UINT16_MAX | Assert_0

definition UINT16_MAX :: "64 word" where
  "UINT16_MAX = 0xFFFF"

definition set_cdb_buf_size :: "8 word list \<Rightarrow> 64 word \<Rightarrow> assertion + 8 word list" where
  "set_cdb_buf_size cdb sz =
     (if sz \<le> UINT16_MAX
      then Inr (cdb[7 := ucast (drop_bit 8 sz), 8 := ucast (sz AND 0xFF)])
      else Inl Assert_size_le_UINT16_MAX)"

definition set_cmd_buf ::
  "IOCTL_Command_struct \<Rightarrow> nat \<Rightarrow> 64 word \<Rightarrow> assertion + IOCTL_Command_struct" where
  "set_cmd_buf cmd b sz =
     (case set_cdb_buf_size (CDB (Request cmd)) sz of
        Inl a \<Rightarrow> Inl a
      | Inr cdb \<Rightarrow>
          Inr (cmd\<lparr>Request := (Request cmd)\<lparr>CDB := cdb\<rparr>, buf_size := ucast sz, buf := b\<rparr>))"

text \<open>
  The \<open>switch\<close> of \<open>fill_cmd\<close> leaves \<open>direction_write\<close> at 0 for the two
  opcodes it knows and asserts on every other one.
\<close>

definition fill_cmd_switch :: "hpsa_h \<Rightarrow> 8 word \<Rightarrow> assertion + int" where
  "fill_cmd_switch h cmd_num =
     (if cmd_num = BMIC_IDENTIFY_CONTROLLER h \<or> cmd_num = BMIC_SENSE_CONTROLLER_PARAMETERS h
      then Inr 0
      else Inl Assert_0)"

definition fill_cmd ::
  "hpsa_h \<Rightarrow> IOCTL_Command_struct \<Rightarrow> 8 word \<Rightarrow> nat \<Rightarrow> 64 word \<Rightarrow> assertion + IOCTL_Command_struct" where
  "fill_cmd h cmd cmd_num b sz =
     (case fill_cmd_switch h cmd_num of
        Inl a \<Rightarrow> Inl a
      | Inr direction_write \<Rightarrow>
          let r1 = (Request cmd)\<lparr>CDB := (CDB (Request cmd))[6 := cmd_num]\<rparr>;
              r2 = (if direction_write \<noteq> 0
                    then r1\<lparr>CDB := (CDB r1)[0 := BMIC_WRITE h],
                            Type_field := (Type_field r1)\<lparr>Direction := XFER_WRITE\<rparr>\<rparr>
                    else r1\<lparr>CDB := (CDB r1)[0 := BMIC_READ h],
                            Type_field := (Type_field r1)\<lparr>Direction := XFER_READ\<rparr>\<rparr>)
          in case set_cmd_buf (cmd\<lparr>Request := r2\<rparr>) b sz of
               Inl a \<Rightarrow> Inl a
             | Inr cmd3 \<Rightarrow>
                 let r3 = (Request cmd3)\<lparr>CDBLen := 10\<rparr>;
                     r4 = r3\<lparr>Type_field := (Type_field r3)\<lparr>Type := TYPE_CMD\<rparr>\<rparr>;
                     r5 = r4\<lparr>Type_field := (Type_field r4)\<lparr>Attribute := ATTR_SIMPLE\<rparr>\<rparr>;
                     r6 = r5\<lparr>Timeout := 0\<rparr>
                 in Inr (cmd3\<lparr>Request := r6\<rparr>))"

text \<open>Reading the two size bytes back as a big-endian 16-bit number.\<close>

definition be16_decode :: "8 word \<Rightarrow> 8 word \<Rightarrow> 16 word" where
  "be16_decode hi lo = push_bit 8 (ucast hi) OR ucast lo"

definition recognized :: "hpsa_h \<Rightarrow> 8 word \<Rightarrow> bool" where
  "recognized h cmd_num \<longleftrightarrow>
     cmd_num = BMIC_IDENTIFY_CONTROLLER h \<or> cmd_num = BMIC_SENSE_CONTROLLER_PARAMETERS h"

text \<open>Sample header values, used where a statement is run on a concrete input.\<close>

definition sample_h :: hpsa_h where
  "sample_h =
     \<lparr>BMIC_READ = 0x26, BMIC_WRITE = 0x27,
      BMIC_IDENTIFY_CONTROLLER = 0x11, BMIC_SENSE_CONTROLLER_PARAMETERS = 0x64,
      YET_MORE_CTLR_FLAG_HBA_MODE_SUPP = 0x02000000,
      VENDOR_ID_LEN = 8, PRODUCT_ID_LEN = 16,
      SOFTWARE_NAME_LEN = 64, HARDWARE_NAME_LEN = 32,
      FIRMWARE_REV_LEN = 4, MAX_STR_BUF_LEN = 64,
      sizeof_identify = 404, sizeof_params = 276\<rparr>"


subsection \<open>Output formatting (the printf conversions the program uses)\<close>

definition NL :: char where "NL = CHR 0x0A"
definition TAB :: char where "TAB = CHR 0x09"
definition QUOTE :: char where "QUOTE = CHR 0x27"
definition NUL :: char where "NUL = CHR 0x00"

definition hex_digit :: "nat \<Rightarrow> char" where
  "hex_digit d = ''0123456789abcdef'' ! d"

fun hex_digits :: "nat \<Rightarrow> string" where
  "hex_digits n = (if n < 16 then [hex_digit n] else hex_digits (n div 16) @ [hex_digit (n mod 16)])"

declare hex_digits.simps [simp del]

fun dec_digits :: "nat \<Rightarrow> string" where
  "dec_digits n = (if n < 10 then [hex_digit n] else dec_digits (n div 10) @ [hex_digit (n mod 10)])"

declare dec_digits.simps [simp del]

definition zero_pad :: "nat \<Rightarrow> string \<Rightarrow> string" where
  "zero_pad width s = replicate (width - length s) (CHR ''0'') @ s"

text \<open>\<open>%02x\<close>, \<open>%04x\<close>, \<open>%08x\<close> on an unsigned value; \<open>%u\<close>; \<open>%d\<close>.\<close>

definition fmt_0x :: "nat \<Rightarrow> nat \<Rightarrow> string" where
  "fmt_0x width n = zero_pad width (hex_digits n)"

definition fmt_u :: "nat \<Rightarrow> string" where
  "fmt_u n = dec_digits n"

definition fmt_d :: "int \<Rightarrow> string" where
  "fmt_d i = (if i < 0 then CHR ''-'' # dec_digits (nat (- i)) else dec_digits (nat i))"

subsection \<open>The process: streams, system calls, termination\<close>

text \<open>
  A run writes to two streams and makes system calls; the model keeps what was written
  and the calls made, in order. A function that can end the process returns, next to
  the new state, whether it returned, called \<open>exit\<close>, or failed an assertion.
\<close>

datatype syscall =
    Sys_open_rdwr string
  | Sys_ioctl_passthru int IOCTL_Command_struct
  | Sys_close int

record world =
  stdout :: string
  stderr :: string
  syscalls :: "syscall list"

definition world0 :: world where
  "world0 = \<lparr>stdout = [], stderr = [], syscalls = []\<rparr>"

datatype 'a result = Returned 'a | Exited int | Aborted assertion

definition really_die :: "string \<Rightarrow> world \<Rightarrow> 'a result \<times> world" where
  "really_die msg w = (Exited 1, w\<lparr>stderr := stderr w @ msg\<rparr>)"

definition die :: "string \<Rightarrow> world \<Rightarrow> 'a result \<times> world" where
  "die msg w = really_die (''FATAL ERROR: '' @ msg @ [NL]) w"

definition die_dev :: "string \<Rightarrow> string \<Rightarrow> world \<Rightarrow> 'a result \<times> world" where
  "die_dev path msg w = die (path @ '': '' @ msg) w"

text \<open>\<open>errno\<close> and the libc's \<open>strerror\<close> are passed in.\<close>

definition die_dev_errno ::
  "(int \<Rightarrow> string) \<Rightarrow> string \<Rightarrow> string \<Rightarrow> int \<Rightarrow> world \<Rightarrow> 'a result \<times> world" where
  "die_dev_errno strerror path msg errno w =
     die_dev path (msg @ '': '' @ fmt_d errno @ '' '' @ strerror errno) w"

definition hpsahba_version :: string where
  "hpsahba_version = ''0.0.0''"

definition help_text :: "string \<Rightarrow> string" where
  "help_text exe_name =
     ''hpsahba version '' @ hpsahba_version @ '', Copyright (C) 2018  ''
       @ ''Ivan Mironov <mironov.ivan@gmail.com>'' @ [NL]
     @ [NL]
     @ ''Usage:'' @ [NL]
     @ [TAB] @ exe_name @ '' -h'' @ [NL]
     @ [TAB] @ exe_name @ '' -v'' @ [NL]
     @ [TAB] @ exe_name @ '' -i /dev/sgN'' @ [NL]
     @ [NL]
     @ ''Options:'' @ [NL]
     @ [TAB] @ ''-h'' @ [NL]
     @ [TAB, TAB] @ ''Print this help message and exit.'' @ [NL]
     @ [NL]
     @ [TAB] @ ''-v'' @ [NL]
     @ [TAB, TAB] @ ''Print version number and exit.'' @ [NL]
     @ [NL]
     @ [TAB] @ ''-i <device path>'' @ [NL]
     @ [TAB, TAB] @ ''Get information about HP Smart Array controller.'' @ [NL]"

definition print_help :: "string \<Rightarrow> world \<Rightarrow> world" where
  "print_help exe_name w = w\<lparr>stderr := stderr w @ help_text exe_name\<rparr>"

definition print_version :: "world \<Rightarrow> world" where
  "print_version w = w\<lparr>stdout := stdout w @ hpsahba_version @ [NL]\<rparr>"

text \<open>
  \<open>open\<close> and \<open>close\<close> are system calls: the value each returns and the \<open>errno\<close>
  it leaves are inputs of the model.
\<close>

definition open_dev ::
  "(int \<Rightarrow> string) \<Rightarrow> string \<Rightarrow> int \<Rightarrow> int \<Rightarrow> world \<Rightarrow> int result \<times> world" where
  "open_dev strerror path open_ret open_errno w =
     (let w1 = w\<lparr>syscalls := syscalls w @ [Sys_open_rdwr path]\<rparr>;
          fd = open_ret
      in if fd = - 1
         then die_dev_errno strerror path ''Unable to open device r/w'' open_errno w1
         else (Returned fd, w1))"

definition close_dev ::
  "(int \<Rightarrow> string) \<Rightarrow> string \<Rightarrow> int \<Rightarrow> int \<Rightarrow> int \<Rightarrow> world \<Rightarrow> unit result \<times> world" where
  "close_dev strerror path fd close_ret close_errno w =
     (let w1 = w\<lparr>syscalls := syscalls w @ [Sys_close fd]\<rparr>
      in if close_ret \<noteq> 0
         then die_dev_errno strerror path ''close() failed'' close_errno w1
         else (Returned (), w1))"

subsection \<open>The error dump and the transport call\<close>

definition SENSEINFOBYTES :: nat where
  "SENSEINFOBYTES = 32"

text \<open>The \<open>for\<close> loop of \<open>print_cmd_error\<close>, from index \<open>i\<close> up to \<open>sense_len\<close>.\<close>

function sense_loop :: "8 word list \<Rightarrow> nat \<Rightarrow> nat \<Rightarrow> string" where
  "sense_loop sense i sense_len =
     (if i < sense_len
      then '' 0x'' @ fmt_0x 2 (unat (sense ! i)) @ sense_loop sense (i + 1) sense_len
      else [])"
  by pat_completeness auto
termination
  by (relation "measure (\<lambda>(sense, i, sense_len). sense_len - i)") auto

declare sense_loop.simps [simp del]

definition print_cmd_error :: "ErrorInfo_struct \<Rightarrow> world \<Rightarrow> world" where
  "print_cmd_error info w =
     (let sense_len = unat (SenseLen info);
          head = ''HPSA SCSI error info:'' @ [NL]
            @ [TAB] @ ''ScsiStatus: 0x'' @ fmt_0x 2 (unat (ScsiStatus info)) @ [NL]
            @ [TAB] @ ''SenseLen: '' @ fmt_u (unat (SenseLen info)) @ [NL]
            @ [TAB] @ ''CommandStatus: 0x'' @ fmt_0x 4 (unat (CommandStatus info)) @ [NL]
            @ [TAB] @ ''ResidualCnt: 0x'' @ fmt_0x 8 (unat (ResidualCnt info)) @ [NL]
            @ [TAB] @ ''SenseInfo:'';
          body = (if sense_len \<noteq> 0
                  then (let sense_len' = (if sense_len > SENSEINFOBYTES then SENSEINFOBYTES
                                          else sense_len)
                        in sense_loop (SenseInfo info) 0 sense_len')
                  else '' <none>'')
      in w\<lparr>stderr := stderr w @ head @ body @ [NL]\<rparr>)"

text \<open>
  What the CCISS_PASSTHRU ioctl hands back: its return value, the \<open>errno\<close> it leaves,
  the \<open>error_info\<close> member of the command, and the bytes it put in the buffer, read as
  the structure the caller passed.
\<close>

record 'b ioctl_reply =
  rc :: int
  ioctl_errno :: int
  reply_error_info :: ErrorInfo_struct
  reply_data :: 'b

text \<open>
  \<open>assert\<close> is forced on at the top of the file. When one fails, the libc writes a
  diagnostic to stderr and calls \<open>abort\<close>. The wording of the diagnostic is the
  libc's, so it is an input: \<open>assert_text a\<close> is what is written for the assertion
  \<open>a\<close>.
\<close>

definition really_exec_cmd ::
  "hpsa_h \<Rightarrow> (assertion \<Rightarrow> string) \<Rightarrow> (int \<Rightarrow> string) \<Rightarrow> string \<Rightarrow> int \<Rightarrow> 8 word
     \<Rightarrow> string \<Rightarrow> nat \<Rightarrow> 64 word \<Rightarrow> 'b ioctl_reply \<Rightarrow> world \<Rightarrow> 'b result \<times> world" where
  "really_exec_cmd h assert_text strerror path fd cmd_num cmd_name b sz reply w =
     (case fill_cmd h (zero_cmd SENSEINFOBYTES) cmd_num b sz of
        Inl a \<Rightarrow> (Aborted a, w\<lparr>stderr := stderr w @ assert_text a\<rparr>)
      | Inr cmd \<Rightarrow>
          let w1 = w\<lparr>syscalls := syscalls w @ [Sys_ioctl_passthru fd cmd]\<rparr>
          in if rc reply \<noteq> 0
             then die_dev_errno strerror path
                    (''ioctl(CCISS_PASSTHRU) failed with command '' @ cmd_name
                       @ '', rc == '' @ fmt_d (rc reply))
                    (ioctl_errno reply) w1
             else if CommandStatus (reply_error_info reply) \<noteq> 0
             then die_dev path (''Command '' @ cmd_name @ '' failed'')
                    (print_cmd_error (reply_error_info reply) w1)
             else (Returned (reply_data reply), w1))"


subsection \<open>The response structures and byte order\<close>

text \<open>
  Of the two structures of \<open>hpsa.h\<close> the program reads these members. A character
  array member is the list of its bytes; a 32-bit member is the list of the four bytes
  in memory, lowest address first, as the controller wrote them.
\<close>

record bmic_identify_controller =
  vendor_id :: string
  product_id :: string
  board_id :: "8 word list"
  running_firm_rev :: string
  rom_firm_rev :: string
  rec_rom_inactive_rev :: string
  yet_more_controller_flags :: "8 word list"

record bmic_controller_parameters =
  software_name :: string
  hardware_name :: string

datatype endianness = Little_endian | Big_endian

text \<open>Reading a \<open>uint32_t\<close> member on a host of the given byte order.\<close>

fun host_load32 :: "endianness \<Rightarrow> 8 word list \<Rightarrow> 32 word" where
  "host_load32 Little_endian [a, b, c, d] =
     ucast a OR push_bit 8 (ucast b) OR push_bit 16 (ucast c) OR push_bit 24 (ucast d)"
| "host_load32 Big_endian [a, b, c, d] =
     ucast d OR push_bit 8 (ucast c) OR push_bit 16 (ucast b) OR push_bit 24 (ucast a)"
| "host_load32 _ _ = 0"

definition bswap_32 :: "32 word \<Rightarrow> 32 word" where
  "bswap_32 x =
     drop_bit 24 (x AND 0xFF000000) OR drop_bit 8 (x AND 0x00FF0000)
       OR push_bit 8 (x AND 0x0000FF00) OR push_bit 24 (x AND 0x000000FF)"

text \<open>\<open>le32toh\<close> of \<open>endian.h\<close>: the identity on a little-endian host, a byte swap on a big-endian one.\<close>

definition le32toh :: "endianness \<Rightarrow> 32 word \<Rightarrow> 32 word" where
  "le32toh host x = (case host of Little_endian \<Rightarrow> x | Big_endian \<Rightarrow> bswap_32 x)"

text \<open>The little-endian wire format of a 32-bit value, and its reading.\<close>

definition le32_encode :: "32 word \<Rightarrow> 8 word list" where
  "le32_encode v = [ucast v, ucast (drop_bit 8 v), ucast (drop_bit 16 v), ucast (drop_bit 24 v)]"

definition le32_decode :: "8 word list \<Rightarrow> 32 word" where
  "le32_decode bs = host_load32 Little_endian bs"

definition is_hba_mode_supported :: "hpsa_h \<Rightarrow> endianness \<Rightarrow> bmic_identify_controller \<Rightarrow> int" where
  "is_hba_mode_supported h host controller_id =
     (let f = le32toh host (host_load32 host (yet_more_controller_flags controller_id))
      in if f AND YET_MORE_CTLR_FLAG_HBA_MODE_SUPP h \<noteq> 0 then 1 else 0)"

subsection \<open>C strings in a character array\<close>

text \<open>
  \<open>isspace\<close> in the "C" locale: space, and the five controls from horizontal tab to
  carriage return.
\<close>

definition isspace :: "char \<Rightarrow> bool" where
  "isspace c \<longleftrightarrow> c = CHR '' '' \<or> c = CHR 0x09 \<or> c = CHR 0x0A \<or> c = CHR 0x0B
                   \<or> c = CHR 0x0C \<or> c = CHR 0x0D"

text \<open>
  A \<open>char *\<close> is an array and an index into it. \<open>c_str\<close> is the string it points to:
  the characters from the index up to the first NUL.
\<close>

definition c_str :: "string \<Rightarrow> nat \<Rightarrow> string" where
  "c_str b p = takeWhile (\<lambda>c. c \<noteq> NUL) (drop p b)"

definition strlen :: "string \<Rightarrow> nat \<Rightarrow> nat" where
  "strlen b p = length (c_str b p)"

text \<open>
  \<open>while (isspace(*str)) str++;\<close> The model stops at the end of the array; the C
  loop stops earlier, at the terminating NUL.
\<close>

function skip_leading :: "string \<Rightarrow> nat \<Rightarrow> nat" where
  "skip_leading b p = (if p < length b \<and> isspace (b ! p) then skip_leading b (p + 1) else p)"
  by pat_completeness auto
termination
  by (relation "measure (\<lambda>(b, p). length b - p)") auto

declare skip_leading.simps [simp del]

text \<open>\<open>for (i = strlen(str); i && isspace(str[i - 1]); i--) str[i - 1] = '\0';\<close>\<close>

function strip_trailing :: "string \<Rightarrow> nat \<Rightarrow> nat \<Rightarrow> string" where
  "strip_trailing b p i =
     (if i \<noteq> 0 \<and> isspace (b ! (p + (i - 1)))
      then strip_trailing (b[p + (i - 1) := NUL]) p (i - 1)
      else b)"
  by pat_completeness auto
termination
  by (relation "measure (\<lambda>(b, p, i). i)") auto

declare strip_trailing.simps [simp del]

text \<open>\<open>trim\<close> changes the array and returns the advanced pointer.\<close>

definition trim :: "string \<Rightarrow> nat \<Rightarrow> string \<times> nat" where
  "trim b p =
     (let p' = skip_leading b p;
          b' = strip_trailing b p' (strlen b p')
      in (b', p'))"

text \<open>
  \<open>strncpy(dst, src, n)\<close>: the characters of \<open>src\<close> up to its first NUL, at most
  \<open>n\<close> of them, then NULs up to \<open>n\<close> characters in all; the rest of \<open>dst\<close> is left
  as it was.
\<close>

definition strncpy :: "string \<Rightarrow> string \<Rightarrow> nat \<Rightarrow> string" where
  "strncpy dst src n =
     (let s = takeWhile (\<lambda>c. c \<noteq> NUL) (take n src)
      in s @ replicate (n - length s) NUL @ drop n dst)"

definition print_info_str_buf :: "hpsa_h \<Rightarrow> string \<Rightarrow> string \<Rightarrow> nat \<Rightarrow> world \<Rightarrow> world" where
  "print_info_str_buf h var_name str_buf max_str_len w =
     (let str0 = replicate (MAX_STR_BUF_LEN h + 1) NUL;
          str1 = strncpy str0 str_buf max_str_len;
          (str2, p) = trim str1 0
      in w\<lparr>stdout := stdout w @ var_name @ ''='' @ [QUOTE] @ c_str str2 p @ [QUOTE] @ [NL]\<rparr>)"

definition print_info_fw_rev :: "hpsa_h \<Rightarrow> string \<Rightarrow> string \<Rightarrow> world \<Rightarrow> world" where
  "print_info_fw_rev h var_name rev_buf w =
     print_info_str_buf h var_name rev_buf (FIRMWARE_REV_LEN h) w"


subsection \<open>What a run receives from outside\<close>

text \<open>
  \<open>getopt\<close> belongs to the libc: the model takes the values it returns, call after
  call, with \<open>optarg\<close> and \<open>optopt\<close> as it leaves them. When the list is used up
  \<open>getopt\<close> returns -1.
\<close>

record getopt_ret =
  opt :: int
  optarg :: string
  optopt :: char

record env =
  argv0 :: string
  getopt_returns :: "getopt_ret list"
  args_left :: bool
  open_ret :: int
  open_errno :: int
  identify_reply :: "bmic_identify_controller ioctl_reply"
  params_reply :: "bmic_controller_parameters ioctl_reply"
  close_ret :: int
  close_errno :: int
  strerror :: "int \<Rightarrow> string"
  assert_text :: "assertion \<Rightarrow> string"
  host :: endianness
  controller_id_addr :: nat
  controller_params_addr :: nat

text \<open>\<open>args_left\<close> is \<open>argc > optind\<close> once \<open>getopt\<close> has returned -1.\<close>

subsection \<open>The report\<close>

definition identify_controller ::
  "hpsa_h \<Rightarrow> env \<Rightarrow> string \<Rightarrow> int \<Rightarrow> world \<Rightarrow> bmic_identify_controller result \<times> world" where
  "identify_controller h e path fd w =
     really_exec_cmd h (assert_text e) (strerror e) path fd (BMIC_IDENTIFY_CONTROLLER h)
       ''BMIC_IDENTIFY_CONTROLLER'' (controller_id_addr e) (sizeof_identify h)
       (identify_reply e) w"

definition sense_controller_parameters ::
  "hpsa_h \<Rightarrow> env \<Rightarrow> string \<Rightarrow> int \<Rightarrow> world \<Rightarrow> bmic_controller_parameters result \<times> world" where
  "sense_controller_parameters h e path fd w =
     really_exec_cmd h (assert_text e) (strerror e) path fd (BMIC_SENSE_CONTROLLER_PARAMETERS h)
       ''BMIC_SENSE_CONTROLLER_PARAMETERS'' (controller_params_addr e) (sizeof_params h)
       (params_reply e) w"

text \<open>The ten \<open>printf\<close> calls of \<open>print_info\<close>, once both commands have returned.\<close>

definition print_info_report ::
  "hpsa_h \<Rightarrow> endianness \<Rightarrow> bmic_identify_controller \<Rightarrow> bmic_controller_parameters
     \<Rightarrow> world \<Rightarrow> world" where
  "print_info_report h hst controller_id controller_params w =
     (let w1 = print_info_str_buf h ''VENDOR_ID'' (vendor_id controller_id) (VENDOR_ID_LEN h) w;
          w2 = print_info_str_buf h ''PRODUCT_ID'' (product_id controller_id) (PRODUCT_ID_LEN h) w1;
          w3 = w2\<lparr>stdout := stdout w2 @ ''BOARD_ID='' @ [QUOTE] @ ''0x''
                       @ fmt_0x 8 (unat (le32toh hst (host_load32 hst (board_id controller_id))))
                       @ [QUOTE] @ [NL]\<rparr>;
          w4 = print_info_str_buf h ''SOFTWARE_NAME'' (software_name controller_params)
                 (SOFTWARE_NAME_LEN h) w3;
          w5 = print_info_str_buf h ''HARDWARE_NAME'' (hardware_name controller_params)
                 (HARDWARE_NAME_LEN h) w4;
          w6 = print_info_fw_rev h ''RUNNING_FIRM_REV'' (running_firm_rev controller_id) w5;
          w7 = print_info_fw_rev h ''ROM_FIRM_REV'' (rom_firm_rev controller_id) w6;
          w8 = print_info_fw_rev h ''REC_ROM_INACTIVE_REV'' (rec_rom_inactive_rev controller_id) w7;
          w9 = w8\<lparr>stdout := stdout w8 @ ''YET_MORE_CONTROLLER_FLAGS='' @ [QUOTE] @ ''0x''
                       @ fmt_0x 8 (unat (le32toh hst
                            (host_load32 hst (yet_more_controller_flags controller_id))))
                       @ [QUOTE] @ [NL]\<rparr>
      in w9\<lparr>stdout := stdout w9 @ ''HBA_MODE_SUPPORTED=''
                 @ fmt_d (is_hba_mode_supported h hst controller_id) @ [NL]\<rparr>)"

definition print_info :: "hpsa_h \<Rightarrow> env \<Rightarrow> string \<Rightarrow> int \<Rightarrow> world \<Rightarrow> unit result \<times> world" where
  "print_info h e path fd w =
     (case identify_controller h e path fd w of
        (Exited n, w1) \<Rightarrow> (Exited n, w1)
      | (Aborted a, w1) \<Rightarrow> (Aborted a, w1)
      | (Returned controller_id, w1) \<Rightarrow>
          (case sense_controller_parameters h e path fd w1 of
             (Exited n, w2) \<Rightarrow> (Exited n, w2)
           | (Aborted a, w2) \<Rightarrow> (Aborted a, w2)
           | (Returned controller_params, w2) \<Rightarrow>
               (Returned (), print_info_report h (host e) controller_id controller_params w2)))"

subsection \<open>main\<close>

datatype cli_action = ACTION_HELP | ACTION_VERSION | ACTION_INFO | ACTION_UNKNOWN

text \<open>
  The option loop. Its state is \<open>action\<close> and \<open>path\<close>; \<open>path\<close> is \<open>None\<close> for
  the NULL it starts as.
\<close>

fun getopt_loop ::
  "getopt_ret list \<Rightarrow> cli_action \<times> string option \<Rightarrow> world
     \<Rightarrow> (cli_action \<times> string option) result \<times> world" where
  "getopt_loop [] st w = (Returned st, w)"
| "getopt_loop (g # gs) (action, path) w =
     (if opt g = - 1 then (Returned (action, path), w)
      else if opt g = of_char (CHR ''h'') then getopt_loop gs (ACTION_HELP, path) w
      else if opt g = of_char (CHR ''v'') then getopt_loop gs (ACTION_VERSION, path) w
      else if opt g = of_char (CHR ''i'') then getopt_loop gs (ACTION_INFO, Some (optarg g)) w
      else if opt g = of_char (CHR ''?'')
      then die (''Unknown command line option: '' @ [QUOTE, optopt g, QUOTE]
                  @ '', try running with -h'') w
      else if opt g = of_char (CHR '':'')
      then die (''Missing argument for option '' @ [QUOTE, optopt g, QUOTE]
                  @ '', try running with -h'') w
      else die (''getopt() returned unexpected value: '' @ fmt_d (opt g)) w)"

text \<open>
  \<open>printf\<close> of a NULL \<open>char *\<close> with \<open>%s\<close> is what the libc makes of it; no run
  reaches it, since \<open>path\<close> is set by the same branch that selects the info action and
  the device is opened only for a path that is set.
\<close>

definition path_str :: "string option \<Rightarrow> string" where
  "path_str path = (case path of None \<Rightarrow> ''(null)'' | Some p \<Rightarrow> p)"

definition run_action ::
  "hpsa_h \<Rightarrow> env \<Rightarrow> cli_action \<Rightarrow> string option \<Rightarrow> int \<Rightarrow> world \<Rightarrow> unit result \<times> world" where
  "run_action h e action path fd w =
     (case action of
        ACTION_HELP \<Rightarrow> (Returned (), print_help (argv0 e) w)
      | ACTION_VERSION \<Rightarrow> (Returned (), print_version w)
      | ACTION_INFO \<Rightarrow> print_info h e (path_str path) fd w
      | ACTION_UNKNOWN \<Rightarrow> die ''No option selected, try running with -h'' w)"

definition main :: "hpsa_h \<Rightarrow> env \<Rightarrow> int result \<times> world" where
  "main h e =
     (case getopt_loop (getopt_returns e) (ACTION_UNKNOWN, None) world0 of
        (Exited n, w) \<Rightarrow> (Exited n, w)
      | (Aborted a, w) \<Rightarrow> (Aborted a, w)
      | (Returned (action, path), w) \<Rightarrow>
          if args_left e
          then die ''Invalid argument in command line, try running with -h'' w
          else
            (case (case path of
                     None \<Rightarrow> (Returned (- 1), w)
                   | Some p \<Rightarrow> open_dev (strerror e) p (open_ret e) (open_errno e) w) of
               (Exited n, w1) \<Rightarrow> (Exited n, w1)
             | (Aborted a, w1) \<Rightarrow> (Aborted a, w1)
             | (Returned fd, w1) \<Rightarrow>
                 (case run_action h e action path fd w1 of
                    (Exited n, w2) \<Rightarrow> (Exited n, w2)
                  | (Aborted a, w2) \<Rightarrow> (Aborted a, w2)
                  | (Returned u, w2) \<Rightarrow>
                      if fd \<noteq> - 1
                      then (case close_dev (strerror e) (path_str path) fd
                                   (close_ret e) (close_errno e) w2 of
                              (Exited n, w3) \<Rightarrow> (Exited n, w3)
                            | (Aborted a, w3) \<Rightarrow> (Aborted a, w3)
                            | (Returned u', w3) \<Rightarrow> (Returned 0, w3))
                      else (Returned 0, w2))))"

text \<open>The exit status of a run: \<open>main\<close> returning \<open>n\<close> is \<open>exit(n)\<close>; an abort has none.\<close>

definition exit_status :: "int result \<Rightarrow> int option" where
  "exit_status r = (case r of Returned n \<Rightarrow> Some n | Exited n \<Rightarrow> Some n | Aborted a \<Rightarrow> None)"


subsection \<open>Reference notions and sample data\<close>

text \<open>
  What trimming is meant to give: the string without its leading run and without its
  trailing run of whitespace.
\<close>

definition trim_spec :: "string \<Rightarrow> string" where
  "trim_spec s = rev (dropWhile isspace (rev (dropWhile isspace s)))"

definition sample_id :: bmic_identify_controller where
  "sample_id =
     \<lparr>vendor_id = ''ACME    '',
      product_id = ''Smart Array P410'',
      board_id = [0x3C, 0x10, 0x00, 0x00],
      running_firm_rev = ''6.64'',
      rom_firm_rev = ''6.6 '',
      rec_rom_inactive_rev = '' 6.4'',
      yet_more_controller_flags = [0x01, 0x00, 0x00, 0x02]\<rparr>"

definition sample_params :: bmic_controller_parameters where
  "sample_params =
     \<lparr>software_name = ''  soft ware'' @ replicate 53 (CHR '' ''),
      hardware_name = ''hw'' @ replicate 30 NUL\<rparr>"

text \<open>The sense bytes the error dump is meant to list: as many as \<open>SenseLen\<close> says, at most the capacity of the array.\<close>

definition sense_dump :: "ErrorInfo_struct \<Rightarrow> 8 word list" where
  "sense_dump info = take (min (unat (SenseLen info)) SENSEINFOBYTES) (SenseInfo info)"

definition sample_strerror :: "int \<Rightarrow> string" where
  "sample_strerror n = (if n = 2 then ''No such file or directory'' else ''Input/output error'')"

text \<open>The diagnostics in the wording of the GNU libc.\<close>

definition sample_assert_text :: "assertion \<Rightarrow> string" where
  "sample_assert_text a =
     (case a of
        Assert_0 \<Rightarrow>
          ''hpsahba: main.c:135: fill_cmd: Assertion '' @ [CHR 0x60] @ ''0'' @ [QUOTE]
            @ '' failed.'' @ [NL]
      | Assert_size_le_UINT16_MAX \<Rightarrow>
          ''hpsahba: main.c:110: set_cdb_buf_size: Assertion '' @ [CHR 0x60]
            @ ''size <= UINT16_MAX'' @ [QUOTE] @ '' failed.'' @ [NL])"

definition failed_reply :: "bmic_identify_controller ioctl_reply" where
  "failed_reply =
     \<lparr>rc = 0, ioctl_errno = 0,
      reply_error_info =
        \<lparr>ScsiStatus = 0x02, SenseLen = 3, CommandStatus = 0x0001, ResidualCnt = 0x194,
         SenseInfo = [0x70, 0x00, 0x05] @ replicate 29 0xAA\<rparr>,
      reply_data = sample_id\<rparr>"

text \<open>
  What a string line of the report is meant to show: the characters of the member up to
  its width or its first NUL, trimmed.
\<close>

definition field_text :: "string \<Rightarrow> nat \<Rightarrow> string" where
  "field_text field n = trim_spec (takeWhile (\<lambda>c. c \<noteq> NUL) (take n field))"

text \<open>Every string member fits the scratch array of \<open>print_info_str_buf\<close>.\<close>

definition widths_ok :: "hpsa_h \<Rightarrow> bool" where
  "widths_ok h \<longleftrightarrow>
     VENDOR_ID_LEN h \<le> MAX_STR_BUF_LEN h \<and> PRODUCT_ID_LEN h \<le> MAX_STR_BUF_LEN h \<and>
     SOFTWARE_NAME_LEN h \<le> MAX_STR_BUF_LEN h \<and> HARDWARE_NAME_LEN h \<le> MAX_STR_BUF_LEN h \<and>
     FIRMWARE_REV_LEN h \<le> MAX_STR_BUF_LEN h"

text \<open>A text as the list of its lines.\<close>

fun split_lines :: "string \<Rightarrow> string list" where
  "split_lines [] = []"
| "split_lines (c # cs) =
     (if c = NL then [] # split_lines cs
      else (case split_lines cs of [] \<Rightarrow> [[c]] | l # ls \<Rightarrow> (c # l) # ls))"

text \<open>The report for the sample answers.\<close>

definition sample_report :: string where
  "sample_report =
     ''VENDOR_ID='' @ [QUOTE] @ ''ACME'' @ [QUOTE, NL]
     @ ''PRODUCT_ID='' @ [QUOTE] @ ''Smart Array P410'' @ [QUOTE, NL]
     @ ''BOARD_ID='' @ [QUOTE] @ ''0x0000103c'' @ [QUOTE, NL]
     @ ''SOFTWARE_NAME='' @ [QUOTE] @ ''soft ware'' @ [QUOTE, NL]
     @ ''HARDWARE_NAME='' @ [QUOTE] @ ''hw'' @ [QUOTE, NL]
     @ ''RUNNING_FIRM_REV='' @ [QUOTE] @ ''6.64'' @ [QUOTE, NL]
     @ ''ROM_FIRM_REV='' @ [QUOTE] @ ''6.6'' @ [QUOTE, NL]
     @ ''REC_ROM_INACTIVE_REV='' @ [QUOTE] @ ''6.4'' @ [QUOTE, NL]
     @ ''YET_MORE_CONTROLLER_FLAGS='' @ [QUOTE] @ ''0x02000001'' @ [QUOTE, NL]
     @ ''HBA_MODE_SUPPORTED=1'' @ [NL]"

text \<open>
  Notions used to state what a whole run does: the two buffer sizes fit in 16 bits, a
  command came back without error, the text of a fatal line, and the worlds a run passes
  through (\<open>w_open\<close> after the device is opened, \<open>action_done\<close> after the action).
  \<open>main_flat\<close> lists the outcomes of \<open>main\<close> once the options are parsed, one
  condition after the other; it is proved equal to \<open>main\<close> below.
\<close>

definition sizes_ok :: "hpsa_h \<Rightarrow> bool" where
  "sizes_ok h \<longleftrightarrow> sizeof_identify h \<le> UINT16_MAX \<and> sizeof_params h \<le> UINT16_MAX"

definition cmd_ok :: "'b ioctl_reply \<Rightarrow> bool" where
  "cmd_ok reply \<longleftrightarrow> rc reply = 0 \<and> CommandStatus (reply_error_info reply) = 0"

definition fatal_line :: "string \<Rightarrow> string" where
  "fatal_line msg = ''FATAL ERROR: '' @ msg @ [NL]"

definition cmd_error_text :: "ErrorInfo_struct \<Rightarrow> string" where
  "cmd_error_text info = stderr (print_cmd_error info world0)"

definition str_line :: "hpsa_h \<Rightarrow> string \<Rightarrow> string \<Rightarrow> nat \<Rightarrow> string" where
  "str_line h name field n = stdout (print_info_str_buf h name field n world0)"

definition report_text ::
  "hpsa_h \<Rightarrow> endianness \<Rightarrow> bmic_identify_controller \<Rightarrow> bmic_controller_parameters \<Rightarrow> string" where
  "report_text h hst c p =
     str_line h ''VENDOR_ID'' (vendor_id c) (VENDOR_ID_LEN h)
     @ str_line h ''PRODUCT_ID'' (product_id c) (PRODUCT_ID_LEN h)
     @ ''BOARD_ID='' @ [QUOTE] @ ''0x''
       @ fmt_0x 8 (unat (le32toh hst (host_load32 hst (board_id c)))) @ [QUOTE] @ [NL]
     @ str_line h ''SOFTWARE_NAME'' (software_name p) (SOFTWARE_NAME_LEN h)
     @ str_line h ''HARDWARE_NAME'' (hardware_name p) (HARDWARE_NAME_LEN h)
     @ str_line h ''RUNNING_FIRM_REV'' (running_firm_rev c) (FIRMWARE_REV_LEN h)
     @ str_line h ''ROM_FIRM_REV'' (rom_firm_rev c) (FIRMWARE_REV_LEN h)
     @ str_line h ''REC_ROM_INACTIVE_REV'' (rec_rom_inactive_rev c) (FIRMWARE_REV_LEN h)
     @ ''YET_MORE_CONTROLLER_FLAGS='' @ [QUOTE] @ ''0x''
       @ fmt_0x 8 (unat (le32toh hst (host_load32 hst (yet_more_controller_flags c))))
       @ [QUOTE] @ [NL]
     @ ''HBA_MODE_SUPPORTED='' @ fmt_d (is_hba_mode_supported h hst c) @ [NL]"

definition built_cmd :: "hpsa_h \<Rightarrow> 8 word \<Rightarrow> nat \<Rightarrow> 64 word \<Rightarrow> IOCTL_Command_struct" where
  "built_cmd h cmd_num b sz =
     (case fill_cmd h (zero_cmd SENSEINFOBYTES) cmd_num b sz of
        Inr c \<Rightarrow> c
      | Inl a \<Rightarrow> zero_cmd SENSEINFOBYTES)"

definition ioctl_identify :: "hpsa_h \<Rightarrow> env \<Rightarrow> int \<Rightarrow> syscall" where
  "ioctl_identify h e fd =
     Sys_ioctl_passthru fd
       (built_cmd h (BMIC_IDENTIFY_CONTROLLER h) (controller_id_addr e) (sizeof_identify h))"

definition ioctl_params :: "hpsa_h \<Rightarrow> env \<Rightarrow> int \<Rightarrow> syscall" where
  "ioctl_params h e fd =
     Sys_ioctl_passthru fd
       (built_cmd h (BMIC_SENSE_CONTROLLER_PARAMETERS h) (controller_params_addr e)
          (sizeof_params h))"

definition ioctl_failed_msg :: "(int \<Rightarrow> string) \<Rightarrow> string \<Rightarrow> string \<Rightarrow> 'b ioctl_reply \<Rightarrow> string" where
  "ioctl_failed_msg se path cmd_name reply =
     path @ '': '' @ ''ioctl(CCISS_PASSTHRU) failed with command '' @ cmd_name
       @ '', rc == '' @ fmt_d (rc reply) @ '': '' @ fmt_d (ioctl_errno reply) @ '' ''
       @ se (ioctl_errno reply)"

definition cmd_failed_msg :: "string \<Rightarrow> string \<Rightarrow> string" where
  "cmd_failed_msg path cmd_name = path @ '': '' @ ''Command '' @ cmd_name @ '' failed''"

definition w_open :: "string option \<Rightarrow> world" where
  "w_open p = (case p of None \<Rightarrow> world0 | Some q \<Rightarrow> world0\<lparr>syscalls := [Sys_open_rdwr q]\<rparr>)"

definition fd_of :: "env \<Rightarrow> string option \<Rightarrow> int" where
  "fd_of e p = (case p of None \<Rightarrow> - 1 | Some q \<Rightarrow> open_ret e)"

definition errno_msg :: "env \<Rightarrow> string option \<Rightarrow> string \<Rightarrow> int \<Rightarrow> string" where
  "errno_msg e p what n =
     path_str p @ '': '' @ what @ '': '' @ fmt_d n @ '' '' @ strerror e n"

definition action_done :: "hpsa_h \<Rightarrow> env \<Rightarrow> cli_action \<Rightarrow> string option \<Rightarrow> world" where
  "action_done h e a p =
     (case a of
        ACTION_HELP \<Rightarrow> (w_open p)\<lparr>stderr := help_text (argv0 e)\<rparr>
      | ACTION_VERSION \<Rightarrow> (w_open p)\<lparr>stdout := hpsahba_version @ [NL]\<rparr>
      | _ \<Rightarrow> (w_open p)\<lparr>syscalls := syscalls (w_open p)
                     @ [ioctl_identify h e (fd_of e p), ioctl_params h e (fd_of e p)],
                   stdout := report_text h (host e) (reply_data (identify_reply e))
                               (reply_data (params_reply e))\<rparr>)"

definition main_flat :: "hpsa_h \<Rightarrow> env \<Rightarrow> cli_action \<Rightarrow> string option \<Rightarrow> int result \<times> world" where
  "main_flat h e a p =
     (if args_left e
      then (Exited 1, world0\<lparr>stderr :=
              fatal_line ''Invalid argument in command line, try running with -h''\<rparr>)
      else if p \<noteq> None \<and> open_ret e = - 1
      then (Exited 1, (w_open p)\<lparr>stderr :=
              fatal_line (errno_msg e p ''Unable to open device r/w'' (open_errno e))\<rparr>)
      else if a = ACTION_UNKNOWN
      then (Exited 1, (w_open p)\<lparr>stderr :=
              fatal_line ''No option selected, try running with -h''\<rparr>)
      else if a = ACTION_INFO \<and> rc (identify_reply e) \<noteq> 0
      then (Exited 1, (w_open p)\<lparr>
              syscalls := syscalls (w_open p) @ [ioctl_identify h e (fd_of e p)],
              stderr := fatal_line (ioctl_failed_msg (strerror e) (path_str p)
                          ''BMIC_IDENTIFY_CONTROLLER'' (identify_reply e))\<rparr>)
      else if a = ACTION_INFO \<and> CommandStatus (reply_error_info (identify_reply e)) \<noteq> 0
      then (Exited 1, (w_open p)\<lparr>
              syscalls := syscalls (w_open p) @ [ioctl_identify h e (fd_of e p)],
              stderr := cmd_error_text (reply_error_info (identify_reply e))
                          @ fatal_line (cmd_failed_msg (path_str p) ''BMIC_IDENTIFY_CONTROLLER'')\<rparr>)
      else if a = ACTION_INFO \<and> rc (params_reply e) \<noteq> 0
      then (Exited 1, (w_open p)\<lparr>
              syscalls := syscalls (w_open p)
                            @ [ioctl_identify h e (fd_of e p), ioctl_params h e (fd_of e p)],
              stderr := fatal_line (ioctl_failed_msg (strerror e) (path_str p)
                          ''BMIC_SENSE_CONTROLLER_PARAMETERS'' (params_reply e))\<rparr>)
      else if a = ACTION_INFO \<and> CommandStatus (reply_error_info (params_reply e)) \<noteq> 0
      then (Exited 1, (w_open p)\<lparr>
              syscalls := syscalls (w_open p)
                            @ [ioctl_identify h e (fd_of e p), ioctl_params h e (fd_of e p)],
              stderr := cmd_error_text (reply_error_info (params_reply e))
                          @ fatal_line (cmd_failed_msg (path_str p)
                              ''BMIC_SENSE_CONTROLLER_PARAMETERS'')\<rparr>)
      else if p = None
      then (Returned 0, action_done h e a p)
      else if close_ret e \<noteq> 0
      then (Exited 1, (action_done h e a p)\<lparr>
              syscalls := syscalls (action_done h e a p) @ [Sys_close (fd_of e p)],
              stderr := stderr (action_done h e a p)
                          @ fatal_line (errno_msg e p ''close() failed'' (close_errno e))\<rparr>)
      else (Returned 0, (action_done h e a p)\<lparr>
              syscalls := syscalls (action_done h e a p) @ [Sys_close (fd_of e p)]\<rparr>))"

definition parse_result :: "env \<Rightarrow> (cli_action \<times> string option) result \<times> world" where
  "parse_result e = getopt_loop (getopt_returns e) (ACTION_UNKNOWN, None) world0"


definition ok_id_reply :: "bmic_identify_controller ioctl_reply" where
  "ok_id_reply =
     \<lparr>rc = 0, ioctl_errno = 0, reply_error_info = zero_ErrorInfo SENSEINFOBYTES,
      reply_data = sample_id\<rparr>"

definition ok_params_reply :: "bmic_controller_parameters ioctl_reply" where
  "ok_params_reply =
     \<lparr>rc = 0, ioctl_errno = 0, reply_error_info = zero_ErrorInfo SENSEINFOBYTES,
      reply_data = sample_params\<rparr>"

definition sample_env :: env where
  "sample_env =
     \<lparr>argv0 = ''hpsahba'',
      getopt_returns = [\<lparr>opt = of_char (CHR ''i''), optarg = ''/dev/sg0'', optopt = NUL\<rparr>],
      args_left = False,
      open_ret = 3, open_errno = 0,
      identify_reply = ok_id_reply,
      params_reply = ok_params_reply,
      close_ret = 0, close_errno = 0,
      strerror = sample_strerror,
      assert_text = sample_assert_text,
      host = Little_endian,
      controller_id_addr = 4096, controller_params_addr = 8192\<rparr>"

definition close_fails_env :: env where
  "close_fails_env = sample_env\<lparr>close_ret := - 1, close_errno := 5\<rparr>"





text \<open>
  Further runs used below: the identify answer with a newline inside the vendor id; \<open>-i
  /dev/sg0 -v\<close> with \<open>close\<close> failing; no option but an argument left over; \<open>-i
  /dev/sg0\<close> with an argument left over; \<open>-i /dev/sg0\<close> with the first command coming
  back with an error; \<open>-i /dev/sg0 -h\<close> with \<open>open\<close> failing.
\<close>

definition newline_id :: bmic_identify_controller where
  "newline_id = sample_id\<lparr>vendor_id := ''AC'' @ [NL] @ ''ME   ''\<rparr>"






section \<open>Properties\<close>

subsection \<open>The command builder\<close>

lemma le_UINT16_MAX_bit:
  fixes sz :: "64 word"
  assumes "sz \<le> UINT16_MAX" and "bit sz n"
  shows "n < 16"
proof (rule ccontr)
  assume "\<not> n < 16"
  hence n: "16 \<le> n" by simp
  have "sz < 2 ^ 16"
    using assms(1) by (simp add: UINT16_MAX_def word_less_nat_alt word_le_nat_alt)
  hence "take_bit 16 sz = sz" by (simp add: less_mask_eq take_bit_eq_mask)
  hence "bit (take_bit 16 sz) n" using assms(2) by simp
  thus False using n by (simp add: bit_take_bit_iff)
qed

lemma be16_roundtrip:
  fixes sz :: "64 word"
  assumes "sz \<le> UINT16_MAX"
  shows "ucast (be16_decode (ucast (drop_bit 8 sz)) (ucast (sz AND 0xFF))) = sz"
proof -
  have m: "(0xFF :: 64 word) = mask 8" by (simp add: mask_eq_exp_minus_1)
  show ?thesis
    unfolding be16_decode_def m
  proof (rule bit_word_eqI)
    fix n assume "n < LENGTH(64)"
    show "bit (ucast (push_bit 8 (ucast (ucast (drop_bit 8 sz) :: 8 word))
                 OR ucast (ucast (sz AND mask 8) :: 8 word) :: 16 word) :: 64 word) n
          = bit sz n"
      using le_UINT16_MAX_bit[OF assms, of n]
      by (cases "n < 8") (auto simp: bit_simps)
  qed
qed

lemma ucast16_roundtrip:
  fixes sz :: "64 word"
  assumes "sz \<le> UINT16_MAX"
  shows "ucast (ucast sz :: 16 word) = sz"
proof (rule bit_word_eqI)
  fix n assume "n < LENGTH(64)"
  show "bit (ucast (ucast sz :: 16 word) :: 64 word) n = bit sz n"
    using le_UINT16_MAX_bit[OF assms, of n] by (auto simp: bit_simps)
qed

lemma fill_cmd_switch_recognized:
  "fill_cmd_switch h cmd_num = (if recognized h cmd_num then Inr 0 else Inl Assert_0)"
  by (simp add: fill_cmd_switch_def recognized_def)

lemma fill_cmd_unrecognized:
  "\<not> recognized h cmd_num \<Longrightarrow> fill_cmd h cmd cmd_num b sz = Inl Assert_0"
  by (simp add: fill_cmd_def fill_cmd_switch_recognized)

lemma fill_cmd_too_big:
  "recognized h cmd_num \<Longrightarrow> \<not> sz \<le> UINT16_MAX \<Longrightarrow>
     fill_cmd h cmd cmd_num b sz = Inl Assert_size_le_UINT16_MAX"
  by (simp add: fill_cmd_def fill_cmd_switch_recognized set_cmd_buf_def set_cdb_buf_size_def
      Let_def)

text \<open>The envelope \<open>fill_cmd\<close> leaves when neither assertion fails, member by member.\<close>

lemma fill_cmd_ok:
  "recognized h cmd_num \<Longrightarrow> sz \<le> UINT16_MAX \<Longrightarrow>
     fill_cmd h cmd cmd_num b sz =
       Inr (cmd\<lparr>Request :=
                   \<lparr>CDBLen = 10,
                    Type_field = \<lparr>Type = TYPE_CMD, Attribute = ATTR_SIMPLE,
                                  Direction = XFER_READ\<rparr>,
                    Timeout = 0,
                    CDB = (CDB (Request cmd))[6 := cmd_num, 0 := BMIC_READ h,
                            7 := ucast (drop_bit 8 sz), 8 := ucast (sz AND 0xFF)]\<rparr>,
                 buf_size := ucast sz, buf := b\<rparr>)"
  by (simp add: fill_cmd_def fill_cmd_switch_recognized set_cmd_buf_def set_cdb_buf_size_def
      Let_def)

lemma fill_cmd_Inr_D:
  assumes "fill_cmd h cmd cmd_num b sz = Inr c"
  shows "recognized h cmd_num \<and> sz \<le> UINT16_MAX"
  using assms fill_cmd_too_big[of h cmd_num sz cmd b] fill_cmd_unrecognized[of h cmd_num cmd b sz]
  by (cases "recognized h cmd_num"; cases "sz \<le> UINT16_MAX") auto

text \<open>
  C1. For a recognized opcode, \<open>fill_cmd\<close> returns an envelope whenever the size fits in
  16 bits, and every envelope it returns has the opcode in CDB byte 6, \<open>BMIC_READ\<close> in
  CDB byte 0, direction \<open>XFER_READ\<close>, CDB length 10, type \<open>TYPE_CMD\<close>, attribute
  \<open>ATTR_SIMPLE\<close>, timeout 0, and the buffer pointer and the size as given.
\<close>

theorem fill_cmd_envelope:
  assumes "recognized h cmd_num" and "length (CDB (Request cmd)) = 16"
  shows "(sz \<le> UINT16_MAX \<longrightarrow> (\<exists>c. fill_cmd h cmd cmd_num b sz = Inr c)) \<and>
         (\<forall>c. fill_cmd h cmd cmd_num b sz = Inr c \<longrightarrow>
            CDB (Request c) ! 6 = cmd_num \<and>
            CDB (Request c) ! 0 = BMIC_READ h \<and>
            Direction (Type_field (Request c)) = XFER_READ \<and>
            CDBLen (Request c) = 10 \<and>
            Type (Type_field (Request c)) = TYPE_CMD \<and>
            Attribute (Type_field (Request c)) = ATTR_SIMPLE \<and>
            Timeout (Request c) = 0 \<and>
            buf c = b \<and>
            ucast (buf_size c) = sz)"
proof -
  have total: "\<exists>c. fill_cmd h cmd cmd_num b sz = Inr c" if "sz \<le> UINT16_MAX"
    using that assms(1) by (simp add: fill_cmd_ok)
  have fields: "CDB (Request c) ! 6 = cmd_num \<and>
            CDB (Request c) ! 0 = BMIC_READ h \<and>
            Direction (Type_field (Request c)) = XFER_READ \<and>
            CDBLen (Request c) = 10 \<and>
            Type (Type_field (Request c)) = TYPE_CMD \<and>
            Attribute (Type_field (Request c)) = ATTR_SIMPLE \<and>
            Timeout (Request c) = 0 \<and>
            buf c = b \<and>
            ucast (buf_size c) = sz"
    if c: "fill_cmd h cmd cmd_num b sz = Inr c" for c
  proof -
    from c have sz: "sz \<le> UINT16_MAX" by (simp add: fill_cmd_Inr_D)
    from c show ?thesis
      using assms sz by (auto simp: fill_cmd_ok ucast16_roundtrip)
  qed
  show ?thesis using total fields by blast
qed

theorem fill_cmd_envelope_witness:
  "recognized sample_h 0x11 \<and> length (CDB (Request (zero_cmd 32))) = 16 \<and>
   (\<exists>c. fill_cmd sample_h (zero_cmd 32) 0x11 4096 404 = Inr c \<and>
        CDB (Request c) ! 6 = 0x11 \<and> CDB (Request c) ! 0 = 0x26 \<and>
        Direction (Type_field (Request c)) = XFER_READ \<and> CDBLen (Request c) = 10 \<and>
        Type (Type_field (Request c)) = TYPE_CMD \<and>
        Attribute (Type_field (Request c)) = ATTR_SIMPLE \<and> Timeout (Request c) = 0 \<and>
        buf c = 4096 \<and> (ucast (buf_size c) :: 64 word) = 404)"
proof -
  have r: "recognized sample_h 0x11" by (simp add: recognized_def sample_h_def)
  have l: "length (CDB (Request (zero_cmd 32))) = 16" by (simp add: zero_cmd_def)
  have s: "(404 :: 64 word) \<le> UINT16_MAX" by (simp add: UINT16_MAX_def)
  from fill_cmd_envelope[OF r l, of 404 4096] s
  obtain c where c: "fill_cmd sample_h (zero_cmd 32) 0x11 4096 404 = Inr c" by blast
  with fill_cmd_envelope[OF r l, of 404 4096]
  have "CDB (Request c) ! 6 = 0x11 \<and> CDB (Request c) ! 0 = BMIC_READ sample_h \<and>
        Direction (Type_field (Request c)) = XFER_READ \<and> CDBLen (Request c) = 10 \<and>
        Type (Type_field (Request c)) = TYPE_CMD \<and>
        Attribute (Type_field (Request c)) = ATTR_SIMPLE \<and> Timeout (Request c) = 0 \<and>
        buf c = 4096 \<and> (ucast (buf_size c) :: 64 word) = 404" by blast
  thus ?thesis using r l c by (simp add: sample_h_def)
qed

text \<open>
  C2. For a size of at most \<open>2^16 - 1\<close>, building a command puts the high byte of the
  size in CDB byte 7 and the low byte in CDB byte 8, and reading the two bytes back as
  a big-endian 16-bit number gives the size.
\<close>

theorem fill_cmd_size_big_endian:
  assumes "sz \<le> UINT16_MAX" and "recognized h cmd_num" and "length (CDB (Request cmd)) = 16"
  shows "\<exists>c. fill_cmd h cmd cmd_num b sz = Inr c \<and>
           CDB (Request c) ! 7 = ucast (drop_bit 8 sz) \<and>
           CDB (Request c) ! 8 = ucast (sz AND 0xFF) \<and>
           ucast (be16_decode (CDB (Request c) ! 7) (CDB (Request c) ! 8)) = sz"
  using assms by (simp add: fill_cmd_ok be16_roundtrip)

theorem fill_cmd_size_big_endian_witness:
  "(0x1234 :: 64 word) \<le> UINT16_MAX \<and> recognized sample_h 0x64 \<and>
   length (CDB (Request (zero_cmd 32))) = 16 \<and>
   (\<exists>c. fill_cmd sample_h (zero_cmd 32) 0x64 0 0x1234 = Inr c \<and>
        CDB (Request c) ! 7 = 0x12 \<and> CDB (Request c) ! 8 = 0x34 \<and>
        ucast (be16_decode (CDB (Request c) ! 7) (CDB (Request c) ! 8)) = (0x1234 :: 64 word))"
proof -
  have s: "(0x1234 :: 64 word) \<le> UINT16_MAX" by (simp add: UINT16_MAX_def)
  have r: "recognized sample_h 0x64" by (simp add: recognized_def sample_h_def)
  have l: "length (CDB (Request (zero_cmd 32))) = 16" by (simp add: zero_cmd_def)
  have hi: "(ucast (drop_bit 8 (0x1234 :: 64 word)) :: 8 word) = 0x12" by simp
  have lo: "(ucast ((0x1234 :: 64 word) AND 0xFF) :: 8 word) = 0x34" by simp
  from fill_cmd_size_big_endian[OF s r l, of 0] show ?thesis
    using s r l unfolding hi lo by blast
qed

subsection \<open>Byte order and the HBA-mode flag\<close>

lemma bswap_32_bytes:
  fixes a b c d :: "8 word"
  shows "bswap_32 (ucast d OR push_bit 8 (ucast c) OR push_bit 16 (ucast b) OR push_bit 24 (ucast a))
         = ucast a OR push_bit 8 (ucast b) OR push_bit 16 (ucast c) OR push_bit 24 (ucast d)"
proof -
  have m: "(0xFF000000 :: 32 word) = push_bit 24 (mask 8)"
       "(0x00FF0000 :: 32 word) = push_bit 16 (mask 8)"
       "(0x0000FF00 :: 32 word) = push_bit 8 (mask 8)"
       "(0x000000FF :: 32 word) = mask 8"
    by (simp_all add: mask_eq_exp_minus_1)
  show ?thesis
    unfolding bswap_32_def m
  proof (rule bit_word_eqI)
    fix n assume n: "n < LENGTH(32)"
    let ?x = "ucast d OR push_bit 8 (ucast c) OR push_bit 16 (ucast b)
                OR push_bit 24 (ucast a) :: 32 word"
    consider "n < 8" | "8 \<le> n \<and> n < 16" | "16 \<le> n \<and> n < 24" | "24 \<le> n \<and> n < 32"
      using n by (simp add: not_less) linarith
    thus "bit (drop_bit 24 (?x AND push_bit 24 (mask 8)) OR drop_bit 8 (?x AND push_bit 16 (mask 8))
            OR push_bit 8 (?x AND push_bit 8 (mask 8)) OR push_bit 24 (?x AND mask 8)) n
          = bit (ucast a OR push_bit 8 (ucast b) OR push_bit 16 (ucast c)
                   OR push_bit 24 (ucast d) :: 32 word) n"
    proof cases
      case 1 thus ?thesis by (auto simp: bit_simps dest: bit_imp_le_length)
    next
      case 2 thus ?thesis by (auto simp: bit_simps dest: bit_imp_le_length)
    next
      case 3 thus ?thesis by (auto simp: bit_simps dest: bit_imp_le_length)
    next
      case 4 thus ?thesis by (auto simp: bit_simps dest: bit_imp_le_length)
    qed
  qed
qed

lemma length4E:
  assumes "length bs = 4"
  obtains a b c d where "bs = [a, b, c, d]"
  using assms by (auto simp: numeral_eq_Suc length_Suc_conv)

text \<open>On either host, \<open>le32toh\<close> of the loaded member is the little-endian reading of its bytes.\<close>

lemma le32toh_host_load32:
  assumes "length bs = 4"
  shows "le32toh hst (host_load32 hst bs) = le32_decode bs"
proof -
  from assms obtain a b c d where bs: "bs = [a, b, c, d]" by (rule length4E)
  show ?thesis
    by (cases hst) (simp_all add: bs le32toh_def le32_decode_def bswap_32_bytes)
qed

lemma le32_roundtrip: "le32_decode (le32_encode v) = v"
  unfolding le32_decode_def le32_encode_def host_load32.simps
proof (rule bit_word_eqI)
  fix n assume n: "n < LENGTH(32)"
  show "bit (ucast (ucast v :: 8 word) OR push_bit 8 (ucast (ucast (drop_bit 8 v) :: 8 word))
              OR push_bit 16 (ucast (ucast (drop_bit 16 v) :: 8 word))
              OR push_bit 24 (ucast (ucast (drop_bit 24 v) :: 8 word)) :: 32 word) n = bit v n"
  proof -
    consider "n < 8" | "8 \<le> n \<and> n < 16" | "16 \<le> n \<and> n < 24" | "24 \<le> n \<and> n < 32"
      using n by (simp add: not_less) linarith
    thus ?thesis
    proof cases
      case 1 thus ?thesis by (auto simp: bit_simps)
    next
      case 2 thus ?thesis by (auto simp: bit_simps)
    next
      case 3 thus ?thesis by (auto simp: bit_simps)
    next
      case 4 thus ?thesis by (auto simp: bit_simps)
    qed
  qed
qed

lemma le32toh_wire: "le32toh hst (host_load32 hst (le32_encode v)) = v"
proof -
  have "length (le32_encode v) = 4" by (simp add: le32_encode_def)
  thus ?thesis by (simp add: le32toh_host_load32 le32_roundtrip)
qed

lemma and_single_bit:
  fixes f :: "32 word"
  shows "f AND push_bit n 1 \<noteq> 0 \<longleftrightarrow> bit f n"
proof
  assume "f AND push_bit n 1 \<noteq> 0"
  then obtain k where "bit (f AND push_bit n 1) k"
    by (auto simp: bit_eq_iff)
  thus "bit f n" by (auto simp: bit_simps)
next
  assume "bit f n"
  hence "bit (f AND push_bit n 1) n"
    by (auto simp: bit_simps dest: bit_imp_le_length)
  thus "f AND push_bit n 1 \<noteq> 0" by auto
qed

text \<open>
  C4. Let the mask be the single bit \<open>n\<close>. For every 32-bit flags value \<open>v\<close>, sent
  little-endian by the controller, \<open>is_hba_mode_supported\<close> on a host of either byte
  order returns 1 if bit \<open>n\<close> of \<open>v\<close> is set and 0 if not; two values that agree on
  bit \<open>n\<close> give the same answer, whatever their other bits.
\<close>

theorem is_hba_mode_supported_bit:
  assumes "YET_MORE_CTLR_FLAG_HBA_MODE_SUPP h = push_bit n 1"
  shows "is_hba_mode_supported h hst (c\<lparr>yet_more_controller_flags := le32_encode v\<rparr>)
           = (if bit v n then 1 else 0) \<and>
         (\<forall>v'. bit v' n = bit v n \<longrightarrow>
            is_hba_mode_supported h hst (c\<lparr>yet_more_controller_flags := le32_encode v'\<rparr>)
              = is_hba_mode_supported h hst (c\<lparr>yet_more_controller_flags := le32_encode v\<rparr>))"
proof -
  have one: "is_hba_mode_supported h hst (c\<lparr>yet_more_controller_flags := le32_encode w\<rparr>)
           = (if bit w n then 1 else 0)" for w
    using and_single_bit[of w n] by (simp add: is_hba_mode_supported_def assms le32toh_wire)
  show ?thesis by (simp add: one)
qed

theorem is_hba_mode_supported_bit_witness:
  "YET_MORE_CTLR_FLAG_HBA_MODE_SUPP sample_h = push_bit 25 1 \<and>
   is_hba_mode_supported sample_h Big_endian
     (sample_id\<lparr>yet_more_controller_flags := le32_encode 0x02000001\<rparr>) = 1 \<and>
   is_hba_mode_supported sample_h Little_endian
     (sample_id\<lparr>yet_more_controller_flags := le32_encode 0xFDFFFFFF\<rparr>) = 0"
proof -
  have m: "YET_MORE_CTLR_FLAG_HBA_MODE_SUPP sample_h = push_bit 25 1"
    by (simp add: sample_h_def)
  have b1: "bit (0x02000001 :: 32 word) 25"
    using and_single_bit[of "0x02000001" 25] by simp
  have b0: "\<not> bit (0xFDFFFFFF :: 32 word) 25"
    using and_single_bit[of "0xFDFFFFFF" 25] by simp
  have "is_hba_mode_supported sample_h Big_endian
          (sample_id\<lparr>yet_more_controller_flags := le32_encode 0x02000001\<rparr>)
        = (if bit (0x02000001 :: 32 word) 25 then 1 else 0)"
    using is_hba_mode_supported_bit[OF m] by blast
  hence s1: "is_hba_mode_supported sample_h Big_endian
          (sample_id\<lparr>yet_more_controller_flags := le32_encode 0x02000001\<rparr>) = 1"
    by (simp only: b1 if_True)
  have "is_hba_mode_supported sample_h Little_endian
          (sample_id\<lparr>yet_more_controller_flags := le32_encode 0xFDFFFFFF\<rparr>)
        = (if bit (0xFDFFFFFF :: 32 word) 25 then 1 else 0)"
    using is_hba_mode_supported_bit[OF m] by blast
  hence s0: "is_hba_mode_supported sample_h Little_endian
          (sample_id\<lparr>yet_more_controller_flags := le32_encode 0xFDFFFFFF\<rparr>) = 0"
    by (simp only: b0 if_False)
  show ?thesis using m s1 s0 by blast
qed

subsection \<open>Trimming\<close>

lemma isspace_NUL [simp]: "\<not> isspace NUL"
  by (simp add: isspace_def NUL_def)

lemma c_str_Cons:
  assumes "p < length b" and "b ! p \<noteq> NUL"
  shows "c_str b p = b ! p # c_str b (Suc p)"
  using assms by (simp add: c_str_def flip: Cons_nth_drop_Suc)

lemma c_str_past_end: "length b \<le> p \<Longrightarrow> c_str b p = []"
  by (simp add: c_str_def)

lemma c_str_at_NUL: "p < length b \<Longrightarrow> b ! p = NUL \<Longrightarrow> c_str b p = []"
  by (simp add: c_str_def flip: Cons_nth_drop_Suc)

lemma c_str_Nil_iff: "c_str b p = [] \<longleftrightarrow> (length b \<le> p \<or> b ! p = NUL)"
proof (cases "p < length b")
  case True
  thus ?thesis by (cases "b ! p = NUL") (simp_all add: c_str_at_NUL c_str_Cons)
next
  case False
  thus ?thesis by (simp add: c_str_past_end)
qed

lemma c_str_skip_leading:
  "c_str b (skip_leading b p) = dropWhile isspace (c_str b p)"
proof (induction b p rule: skip_leading.induct)
  case (1 b p)
  show ?case
  proof (cases "p < length b \<and> isspace (b ! p)")
    case True
    hence nn: "b ! p \<noteq> NUL" by auto
    have "skip_leading b p = skip_leading b (p + 1)"
      using True by (subst skip_leading.simps) simp
    moreover have "c_str b p = b ! p # c_str b (Suc p)"
      using True nn by (simp add: c_str_Cons)
    ultimately show ?thesis using True 1 by simp
  next
    case False
    hence s: "skip_leading b p = p" by (subst skip_leading.simps) auto
    show ?thesis
    proof (cases "p < length b")
      case ge: False
      thus ?thesis by (simp add: s c_str_past_end)
    next
      case lt: True
      with False have ns: "\<not> isspace (b ! p)" by simp
      show ?thesis
      proof (cases "b ! p = NUL")
        case True
        thus ?thesis using lt by (simp add: s c_str_at_NUL)
      next
        case False
        thus ?thesis using lt ns by (simp add: s c_str_Cons)
      qed
    qed
  qed
qed

lemma skip_leading_ge: "p \<le> skip_leading b p"
proof (induction b p rule: skip_leading.induct)
  case (1 b p)
  show ?case
    by (subst skip_leading.simps) (use 1 in \<open>auto simp: Suc_leD\<close>)
qed


lemma length_c_str_le: "length (c_str b p) \<le> length b - p"
  using length_takeWhile_le[of "\<lambda>c. c \<noteq> NUL" "drop p b"] by (simp add: c_str_def)

lemma c_str_nth:
  assumes "j < length (c_str b p)"
  shows "c_str b p ! j = b ! (p + j)"
proof -
  have "p + j < length b" using assms length_c_str_le[of b p] by simp
  thus ?thesis using assms by (simp add: c_str_def takeWhile_nth)
qed

lemma take_takeWhile_le:
  "k \<le> length (takeWhile P xs) \<Longrightarrow> take k (takeWhile P xs) = take k xs"
proof (induction xs arbitrary: k)
  case Nil
  then show ?case by simp
next
  case (Cons x xs)
  then show ?case by (cases k) (auto split: if_splits)
qed

lemma takeWhile_update_stop:
  "k < length (takeWhile P xs) \<Longrightarrow> \<not> P x \<Longrightarrow> takeWhile P (xs[k := x]) = take k xs"
proof (induction xs arbitrary: k)
  case Nil
  then show ?case by simp
next
  case (Cons y ys)
  then show ?case by (cases k) (auto split: if_splits)
qed

lemma c_str_update_NUL:
  assumes "k < length (c_str b p)"
  shows "c_str (b[p + k := NUL]) p = take k (c_str b p)"
proof -
  have "drop p (b[p + k := NUL]) = (drop p b)[k := NUL]"
    by (simp add: drop_update_swap)
  hence "c_str (b[p + k := NUL]) p = take k (drop p b)"
    using assms by (simp add: c_str_def takeWhile_update_stop)
  also have "\<dots> = take k (c_str b p)"
    using assms by (simp add: c_str_def take_takeWhile_le)
  finally show ?thesis .
qed

lemma strip_trailing_stop:
  "i = 0 \<or> \<not> isspace (b ! (p + (i - 1))) \<Longrightarrow> strip_trailing b p i = b"
  by (subst strip_trailing.simps) auto

lemma strip_trailing_step:
  "i \<noteq> 0 \<Longrightarrow> isspace (b ! (p + (i - 1))) \<Longrightarrow>
     strip_trailing b p i = strip_trailing (b[p + (i - 1) := NUL]) p (i - 1)"
  by (subst strip_trailing.simps) auto

lemma skip_leading_stop:
  "\<not> (p < length b \<and> isspace (b ! p)) \<Longrightarrow> skip_leading b p = p"
  by (subst skip_leading.simps) auto

lemma dropWhile_rev_snoc: "P x \<Longrightarrow> dropWhile P (rev (xs @ [x])) = dropWhile P (rev xs)"
  by simp

lemma c_str_strip_trailing:
  "i = length (c_str b p) \<Longrightarrow>
     c_str (strip_trailing b p i) p = rev (dropWhile isspace (rev (c_str b p)))"
proof (induction b p i rule: strip_trailing.induct)
  case (1 b p i)
  let ?t = "c_str b p"
  show ?case
  proof (cases "i \<noteq> 0 \<and> isspace (b ! (p + (i - 1)))")
    case True
    hence ne: "?t \<noteq> []" using 1(2) by auto
    have lt: "i - 1 < length ?t" using True 1(2) by simp
    have "last ?t = ?t ! (i - 1)" using ne 1(2) by (simp add: last_conv_nth)
    also have "\<dots> = b ! (p + (i - 1))" using lt by (rule c_str_nth)
    finally have l: "last ?t = b ! (p + (i - 1))" .
    have sp: "isspace (last ?t)" unfolding l using True by blast
    have upd: "c_str (b[p + (i - 1) := NUL]) p = butlast ?t"
      using c_str_update_NUL[OF lt] 1(2) by (simp add: butlast_conv_take)
    hence "i - 1 = length (c_str (b[p + (i - 1) := NUL]) p)" using 1(2) by simp
    from 1(1)[OF True this]
    have ih: "c_str (strip_trailing (b[p + (i - 1) := NUL]) p (i - 1)) p
            = rev (dropWhile isspace (rev (butlast ?t)))"
      by (simp only: upd)
    have step: "strip_trailing b p i = strip_trailing (b[p + (i - 1) := NUL]) p (i - 1)"
      using True by (intro strip_trailing_step) blast+
    have "dropWhile isspace (rev (butlast ?t @ [last ?t])) = dropWhile isspace (rev (butlast ?t))"
      using sp by (rule dropWhile_rev_snoc)
    hence "dropWhile isspace (rev ?t) = dropWhile isspace (rev (butlast ?t))"
      by (simp only: append_butlast_last_id[OF ne])
    thus ?thesis by (simp only: step ih)
  next
    case False
    hence s: "strip_trailing b p i = b" by (simp add: strip_trailing_stop)
    show ?thesis
    proof (cases "i = 0")
      case True
      thus ?thesis unfolding s using 1(2) by simp
    next
      case nz: False
      hence ne: "?t \<noteq> []" using 1(2) by auto
      have lt: "i - 1 < length ?t" using nz 1(2) by simp
      have "last ?t = ?t ! (i - 1)" using ne 1(2) by (simp add: last_conv_nth)
      also have "\<dots> = b ! (p + (i - 1))" using lt by (rule c_str_nth)
      finally have l: "last ?t = b ! (p + (i - 1))" .
      have "\<not> isspace (last ?t)" unfolding l using False nz by blast
      hence "dropWhile isspace (rev ?t) = rev ?t"
        using ne by (cases "rev ?t") (auto simp: last_rev hd_rev dest: arg_cong[where f=hd])
      thus ?thesis unfolding s by simp
    qed
  qed
qed


lemma c_str_trim:
  assumes "trim b p = (b', p')"
  shows "c_str b' p' = trim_spec (c_str b p)"
proof -
  from assms have p': "p' = skip_leading b p"
    and b': "b' = strip_trailing b p' (length (c_str b p'))"
    by (auto simp: trim_def Let_def strlen_def)
  have "c_str b' p' = rev (dropWhile isspace (rev (c_str b p')))"
    unfolding b' by (rule c_str_strip_trailing) simp
  thus ?thesis by (simp add: p' c_str_skip_leading trim_spec_def)
qed

lemma rev_dropWhile_takeWhile:
  "rev (dropWhile P (rev xs)) @ rev (takeWhile P (rev xs)) = xs"
proof -
  have "rev (dropWhile P (rev xs)) @ rev (takeWhile P (rev xs))
          = rev (takeWhile P (rev xs) @ dropWhile P (rev xs))"
    by (simp only: rev_append)
  also have "\<dots> = rev (rev xs)" by (simp only: takeWhile_dropWhile_id)
  also have "\<dots> = xs" by simp
  finally show ?thesis .
qed

lemma trim_spec_suffix:
  "dropWhile isspace s
     = trim_spec s @ rev (takeWhile isspace (rev (dropWhile isspace s)))"
  unfolding trim_spec_def by (rule rev_dropWhile_takeWhile[symmetric])

lemma trim_spec_decomp:
  "s = takeWhile isspace s @ trim_spec s @ rev (takeWhile isspace (rev (dropWhile isspace s)))"
proof -
  have "s = takeWhile isspace s @ dropWhile isspace s" by simp
  also have "dropWhile isspace s
     = trim_spec s @ rev (takeWhile isspace (rev (dropWhile isspace s)))"
    by (rule trim_spec_suffix)
  finally show ?thesis .
qed

lemma trim_spec_last:
  assumes "trim_spec s \<noteq> []"
  shows "\<not> isspace (last (trim_spec s))"
proof -
  let ?d = "dropWhile isspace (rev (dropWhile isspace s))"
  from assms have ne: "?d \<noteq> []" by (simp add: trim_spec_def)
  hence "\<not> isspace (hd ?d)" by (rule hd_dropWhile)
  moreover have "last (trim_spec s) = hd ?d" using ne by (simp add: trim_spec_def last_rev)
  ultimately show ?thesis by simp
qed

lemma trim_spec_hd:
  assumes "trim_spec s \<noteq> []"
  shows "\<not> isspace (hd (trim_spec s))"
proof -
  let ?u = "dropWhile isspace s"
  have u: "?u = trim_spec s @ rev (takeWhile isspace (rev ?u))"
    by (rule trim_spec_suffix)
  hence "?u \<noteq> []" using assms by (metis Nil_is_append_conv)
  hence "\<not> isspace (hd ?u)" by (rule hd_dropWhile)
  moreover have "hd ?u = hd (trim_spec s)" using assms u by (metis hd_append2)
  ultimately show ?thesis by simp
qed

lemma trim_spec_fixed:
  assumes "s = [] \<or> (\<not> isspace (hd s) \<and> \<not> isspace (last s))"
  shows "trim_spec s = s"
proof (cases "s = []")
  case True
  thus ?thesis by (simp add: trim_spec_def)
next
  case False
  with assms have h: "\<not> isspace (hd s)" and l: "\<not> isspace (last s)" by auto
  from False h have 1: "dropWhile isspace s = s" by (cases s) auto
  from False l have 2: "dropWhile isspace (rev s) = rev s"
    by (cases "rev s") (auto simp: last_rev dest: arg_cong[where f=hd] simp: hd_rev)
  show ?thesis by (simp add: trim_spec_def 1 2)
qed

lemma trim_spec_idem: "trim_spec (trim_spec s) = trim_spec s"
  using trim_spec_hd[of s] trim_spec_last[of s] by (intro trim_spec_fixed) blast

lemma trim_spec_all_space:
  assumes "\<forall>c \<in> set s. isspace c"
  shows "trim_spec s = []"
proof -
  from assms have "dropWhile isspace s = []" by (simp only: dropWhile_eq_Nil_conv)
  thus ?thesis by (simp only: trim_spec_def rev.simps dropWhile.simps)
qed

lemma trim_fixed:
  assumes "c_str b p = [] \<or> (\<not> isspace (hd (c_str b p)) \<and> \<not> isspace (last (c_str b p)))"
  shows "trim b p = (b, p)"
proof (cases "c_str b p = []")
  case True
  hence "\<not> (p < length b \<and> isspace (b ! p))" by (auto simp: c_str_Nil_iff)
  hence "skip_leading b p = p" by (rule skip_leading_stop)
  thus ?thesis using True by (simp add: trim_def strlen_def strip_trailing_stop)
next
  case False
  let ?t = "c_str b p"
  from False assms have h: "\<not> isspace (hd ?t)" and l: "\<not> isspace (last ?t)" by auto
  have "hd ?t = ?t ! 0" using False by (simp add: hd_conv_nth)
  also have "\<dots> = b ! (p + 0)" using False by (intro c_str_nth) simp
  finally have "\<not> isspace (b ! p)" using h by simp
  hence sk: "skip_leading b p = p" by (simp add: skip_leading_stop)
  have "last ?t = ?t ! (length ?t - 1)" using False by (simp add: last_conv_nth)
  also have "\<dots> = b ! (p + (length ?t - 1))" using False by (intro c_str_nth) simp
  finally have "\<not> isspace (b ! (p + (length ?t - 1)))" using l by simp
  hence "strip_trailing b p (length ?t) = b" by (intro strip_trailing_stop) blast
  thus ?thesis by (simp add: trim_def strlen_def sk)
qed

text \<open>
  C5. Take a NUL-terminated string in an array and trim it. Trimming the result again
  returns the same pointer and leaves the array as it is; a string that neither begins
  nor ends with whitespace is returned unchanged the first time; a string of whitespace
  only becomes the empty string; and the result is the original string less a prefix
  and a suffix that consist of whitespace only, so nothing inside is altered.
\<close>

theorem trim_idempotent:
  assumes "NUL \<in> set (drop p b)" and "trim b p = (b', p')"
  shows "trim b' p' = (b', p') \<and>
         ((c_str b p = [] \<or> (\<not> isspace (hd (c_str b p)) \<and> \<not> isspace (last (c_str b p))))
            \<longrightarrow> (b', p') = (b, p)) \<and>
         ((\<forall>c \<in> set (c_str b p). isspace c) \<longrightarrow> c_str b' p' = []) \<and>
         (\<exists>pre suf. c_str b p = pre @ c_str b' p' @ suf \<and>
                     (\<forall>c \<in> set pre. isspace c) \<and> (\<forall>c \<in> set suf. isspace c)) \<and>
         (c_str b' p' \<noteq> [] \<longrightarrow>
            \<not> isspace (hd (c_str b' p')) \<and> \<not> isspace (last (c_str b' p')))"
proof -
  have r: "c_str b' p' = trim_spec (c_str b p)" using assms(2) by (rule c_str_trim)
  have ends: "c_str b' p' \<noteq> [] \<longrightarrow>
            \<not> isspace (hd (c_str b' p')) \<and> \<not> isspace (last (c_str b' p'))"
    unfolding r using trim_spec_hd trim_spec_last by blast
  hence idem: "trim b' p' = (b', p')" by (intro trim_fixed) blast
  have same: "(c_str b p = [] \<or> (\<not> isspace (hd (c_str b p)) \<and> \<not> isspace (last (c_str b p))))
            \<longrightarrow> (b', p') = (b, p)"
    using trim_fixed[of b p] assms(2) by auto
  have blank: "(\<forall>c \<in> set (c_str b p). isspace c) \<longrightarrow> c_str b' p' = []"
    unfolding r by (simp add: trim_spec_all_space)
  have "c_str b p = takeWhile isspace (c_str b p) @ c_str b' p'
            @ rev (takeWhile isspace (rev (dropWhile isspace (c_str b p))))"
    unfolding r by (rule trim_spec_decomp)
  moreover have "\<forall>c \<in> set (takeWhile isspace (c_str b p)). isspace c"
    by (auto dest: set_takeWhileD)
  moreover have "\<forall>c \<in> set (rev (takeWhile isspace (rev (dropWhile isspace (c_str b p))))). isspace c"
    by (auto dest: set_takeWhileD)
  ultimately have dec: "\<exists>pre suf. c_str b p = pre @ c_str b' p' @ suf \<and>
                     (\<forall>c \<in> set pre. isspace c) \<and> (\<forall>c \<in> set suf. isspace c)"
    by blast
  show ?thesis using idem same blank dec ends by blast
qed


theorem trim_idempotent_witness:
  "NUL \<in> set (drop 0 (''  ab c  '' @ [NUL])) \<and>
   trim (''  ab c  '' @ [NUL]) 0 = (''  ab c'' @ [NUL, NUL, NUL], 2) \<and>
   c_str (''  ab c'' @ [NUL, NUL, NUL]) 2 = ''ab c'' \<and>
   trim (''  ab c'' @ [NUL, NUL, NUL]) 2 = (''  ab c'' @ [NUL, NUL, NUL], 2) \<and>
   c_str ('' '' @ [TAB, NL, NUL]) 0 = '' '' @ [TAB, NL] \<and>
   isspace (CHR '' '') \<and> isspace TAB \<and> isspace NL \<and>
   trim ('' '' @ [TAB, NL, NUL]) 0 = ('' '' @ [TAB, NL, NUL], 3) \<and>
   c_str ('' '' @ [TAB, NL, NUL]) 3 = []"
proof -
  have n1: "NUL \<in> set (drop 0 (''  ab c  '' @ [NUL]))" by simp
  have t1: "trim (''  ab c  '' @ [NUL]) 0 = (''  ab c'' @ [NUL, NUL, NUL], 2)"
    by code_simp
  have c1: "c_str (''  ab c'' @ [NUL, NUL, NUL]) 2 = ''ab c''" by code_simp
  have n2: "NUL \<in> set (drop 0 ('' '' @ [TAB, NL, NUL]))" by simp
  have t2: "trim ('' '' @ [TAB, NL, NUL]) 0 = ('' '' @ [TAB, NL, NUL], 3)"
    by code_simp
  have c2: "c_str ('' '' @ [TAB, NL, NUL]) 0 = '' '' @ [TAB, NL]" by code_simp
  have sp: "isspace (CHR '' '')" "isspace TAB" "isspace NL"
    by (simp_all add: isspace_def TAB_def NL_def)
  have s2: "\<forall>c \<in> set (c_str ('' '' @ [TAB, NL, NUL]) 0). isspace c"
    unfolding c2 using sp by simp
  from trim_idempotent[OF n1 t1]
  have i1: "trim (''  ab c'' @ [NUL, NUL, NUL]) 2 = (''  ab c'' @ [NUL, NUL, NUL], 2)"
    by blast
  from trim_idempotent[OF n2 t2] s2
  have e2: "c_str ('' '' @ [TAB, NL, NUL]) 3 = []" by blast
  show ?thesis using n1 t1 c1 i1 c2 sp t2 e2 by blast
qed

subsection \<open>The error dump\<close>

lemma length_hex_digits: "0 < k \<Longrightarrow> n < 16 ^ k \<Longrightarrow> length (hex_digits n) \<le> k"
proof (induction n arbitrary: k rule: hex_digits.induct)
  case (1 n)
  show ?case
  proof (cases "n < 16")
    case True
    thus ?thesis using 1(2) by (subst hex_digits.simps) simp
  next
    case False
    then obtain k' where k: "k = Suc k'" using 1(2) by (cases k) auto
    have "k' \<noteq> 0" using False 1(3) k by (cases k') auto
    moreover have "n div 16 < 16 ^ k'" using 1(3) k
      by (simp add: less_mult_imp_div_less mult.commute)
    ultimately have "length (hex_digits (n div 16)) \<le> k'"
      using 1(1)[OF False, of k'] by simp
    thus ?thesis using False k by (subst hex_digits.simps) simp
  qed
qed

lemma length_fmt_0x: "0 < k \<Longrightarrow> n < 16 ^ k \<Longrightarrow> length (fmt_0x k n) = k"
  using length_hex_digits[of k n] by (simp add: fmt_0x_def zero_pad_def)

lemma sense_loop_eq:
  "n \<le> length xs \<Longrightarrow>
     sense_loop xs i n = concat (map (\<lambda>x. '' 0x'' @ fmt_0x 2 (unat x)) (drop i (take n xs)))"
proof (induction xs i n rule: sense_loop.induct)
  case (1 sense i sense_len)
  show ?case
  proof (cases "i < sense_len")
    case True
    hence "i < length (take sense_len sense)" using 1(2) by simp
    hence "drop i (take sense_len sense) = sense ! i # drop (Suc i) (take sense_len sense)"
      using True by (simp flip: Cons_nth_drop_Suc)
    thus ?thesis using True 1 by (subst sense_loop.simps) simp
  next
    case False
    thus ?thesis using 1(2) by (subst sense_loop.simps) simp
  qed
qed


lemma really_exec_cmd_ok:
  assumes "recognized h cmd_num" and "sz \<le> UINT16_MAX"
  shows "really_exec_cmd h ad se path fd cmd_num cmd_name b sz reply w =
     (let w1 = w\<lparr>syscalls := syscalls w @
                 [Sys_ioctl_passthru fd
                    ((zero_cmd SENSEINFOBYTES)\<lparr>Request :=
                       \<lparr>CDBLen = 10,
                        Type_field = \<lparr>Type = TYPE_CMD, Attribute = ATTR_SIMPLE,
                                      Direction = XFER_READ\<rparr>,
                        Timeout = 0,
                        CDB = (replicate 16 0)[6 := cmd_num, 0 := BMIC_READ h,
                                7 := ucast (drop_bit 8 sz), 8 := ucast (sz AND 0xFF)]\<rparr>,
                     buf_size := ucast sz, buf := b\<rparr>)]\<rparr>
      in if rc reply \<noteq> 0
         then die_dev_errno se path
                (''ioctl(CCISS_PASSTHRU) failed with command '' @ cmd_name
                   @ '', rc == '' @ fmt_d (rc reply))
                (ioctl_errno reply) w1
         else if CommandStatus (reply_error_info reply) \<noteq> 0
         then die_dev path (''Command '' @ cmd_name @ '' failed'')
                (print_cmd_error (reply_error_info reply) w1)
         else (Returned (reply_data reply), w1))"
  unfolding really_exec_cmd_def fill_cmd_ok[OF assms]
  by (simp add: zero_cmd_def)

lemma print_cmd_error_stderr:
  assumes "length (SenseInfo info) = SENSEINFOBYTES"
  shows "print_cmd_error info w =
     w\<lparr>stderr := stderr w
             @ ''HPSA SCSI error info:'' @ [NL]
             @ [TAB] @ ''ScsiStatus: 0x'' @ fmt_0x 2 (unat (ScsiStatus info)) @ [NL]
             @ [TAB] @ ''SenseLen: '' @ fmt_u (unat (SenseLen info)) @ [NL]
             @ [TAB] @ ''CommandStatus: 0x'' @ fmt_0x 4 (unat (CommandStatus info)) @ [NL]
             @ [TAB] @ ''ResidualCnt: 0x'' @ fmt_0x 8 (unat (ResidualCnt info)) @ [NL]
             @ [TAB] @ ''SenseInfo:''
             @ (if SenseLen info = 0 then '' <none>''
                else concat (map (\<lambda>x. '' 0x'' @ fmt_0x 2 (unat x)) (sense_dump info)))
             @ [NL]\<rparr>"
proof (cases "SenseLen info = 0")
  case True
  thus ?thesis by (simp add: print_cmd_error_def)
next
  case False
  let ?n = "unat (SenseLen info)"
  from False have nz: "?n \<noteq> 0" by (simp add: unat_eq_0)
  have body: "sense_loop (SenseInfo info) 0 (if ?n > SENSEINFOBYTES then SENSEINFOBYTES else ?n)
          = concat (map (\<lambda>x. '' 0x'' @ fmt_0x 2 (unat x)) (sense_dump info))"
  proof (cases "?n > SENSEINFOBYTES")
    case True
    hence "min ?n SENSEINFOBYTES = SENSEINFOBYTES" by simp
    thus ?thesis using True assms sense_loop_eq[of SENSEINFOBYTES "SenseInfo info" 0]
      by (simp add: sense_dump_def)
  next
    case le: False
    hence "min ?n SENSEINFOBYTES = ?n" by simp
    thus ?thesis using le assms sense_loop_eq[of ?n "SenseInfo info" 0]
      by (simp add: sense_dump_def)
  qed
  show ?thesis
    unfolding print_cmd_error_def Let_def using nz False
    by (simp only: body if_True if_False not_False_eq_True append_assoc)
qed

text \<open>
  C6. When the ioctl returns 0 and the command status it leaves is not zero,
  \<open>really_exec_cmd\<close> writes nothing to stdout, writes to stderr the dump (scsi status,
  sense length, command status, residual count, then the first
  \<open>min SenseLen SENSEINFOBYTES\<close> sense bytes in hexadecimal, or \<open><none>\<close> when the
  sense length is zero), then the fatal line that names the command, and exits with
  status 1.
\<close>

theorem really_exec_cmd_command_failure:
  assumes "recognized h cmd_num" and "sz \<le> UINT16_MAX"
    and "rc reply = 0" and "reply_error_info reply = info" and "CommandStatus info \<noteq> 0"
    and "length (SenseInfo info) = SENSEINFOBYTES"
  shows "\<exists>w'.
           really_exec_cmd h ad se path fd cmd_num cmd_name b sz reply w = (Exited 1, w') \<and>
           stdout w' = stdout w \<and>
           length (sense_dump info) = min (unat (SenseLen info)) SENSEINFOBYTES \<and>
           stderr w' = stderr w
             @ ''HPSA SCSI error info:'' @ [NL]
             @ [TAB] @ ''ScsiStatus: 0x'' @ fmt_0x 2 (unat (ScsiStatus info)) @ [NL]
             @ [TAB] @ ''SenseLen: '' @ fmt_u (unat (SenseLen info)) @ [NL]
             @ [TAB] @ ''CommandStatus: 0x'' @ fmt_0x 4 (unat (CommandStatus info)) @ [NL]
             @ [TAB] @ ''ResidualCnt: 0x'' @ fmt_0x 8 (unat (ResidualCnt info)) @ [NL]
             @ [TAB] @ ''SenseInfo:''
             @ (if SenseLen info = 0 then '' <none>''
                else concat (map (\<lambda>x. '' 0x'' @ fmt_0x 2 (unat x)) (sense_dump info)))
             @ [NL]
             @ ''FATAL ERROR: '' @ path @ '': Command '' @ cmd_name @ '' failed'' @ [NL]"
proof -
  have len: "length (sense_dump info) = min (unat (SenseLen info)) SENSEINFOBYTES"
    using assms(6) by (simp add: sense_dump_def)
  show ?thesis
    unfolding really_exec_cmd_ok[OF assms(1,2)] print_cmd_error_stderr[OF assms(6)] assms(4)
    using assms(3,5) len
    by (simp add: Let_def die_dev_def die_def really_die_def)
qed


theorem really_exec_cmd_command_failure_witness:
  "recognized sample_h 0x11 \<and> (404 :: 64 word) \<le> UINT16_MAX \<and> rc failed_reply = 0 \<and>
   CommandStatus (reply_error_info failed_reply) \<noteq> 0 \<and>
   length (SenseInfo (reply_error_info failed_reply)) = SENSEINFOBYTES \<and>
   (\<exists>w'. really_exec_cmd sample_h sample_assert_text sample_strerror ''/dev/sg0'' 3 0x11
            ''BMIC_IDENTIFY_CONTROLLER'' 4096 404 failed_reply world0 = (Exited 1, w') \<and>
         stdout w' = [] \<and>
         stderr w' = ''HPSA SCSI error info:'' @ [NL]
           @ [TAB] @ ''ScsiStatus: 0x02'' @ [NL]
           @ [TAB] @ ''SenseLen: 3'' @ [NL]
           @ [TAB] @ ''CommandStatus: 0x0001'' @ [NL]
           @ [TAB] @ ''ResidualCnt: 0x00000194'' @ [NL]
           @ [TAB] @ ''SenseInfo: 0x70 0x00 0x05'' @ [NL]
           @ ''FATAL ERROR: /dev/sg0: Command BMIC_IDENTIFY_CONTROLLER failed'' @ [NL])"
proof -
  let ?info = "reply_error_info failed_reply"
  have r: "recognized sample_h 0x11" by (simp add: recognized_def sample_h_def)
  have s: "(404 :: 64 word) \<le> UINT16_MAX" by (simp add: UINT16_MAX_def)
  have z: "rc failed_reply = 0" by (simp add: failed_reply_def)
  have c: "CommandStatus ?info \<noteq> 0" by (simp add: failed_reply_def)
  have l: "length (SenseInfo ?info) = SENSEINFOBYTES"
    by (simp add: failed_reply_def SENSEINFOBYTES_def)
  have e: "stderr world0
             @ ''HPSA SCSI error info:'' @ [NL]
             @ [TAB] @ ''ScsiStatus: 0x'' @ fmt_0x 2 (unat (ScsiStatus ?info)) @ [NL]
             @ [TAB] @ ''SenseLen: '' @ fmt_u (unat (SenseLen ?info)) @ [NL]
             @ [TAB] @ ''CommandStatus: 0x'' @ fmt_0x 4 (unat (CommandStatus ?info)) @ [NL]
             @ [TAB] @ ''ResidualCnt: 0x'' @ fmt_0x 8 (unat (ResidualCnt ?info)) @ [NL]
             @ [TAB] @ ''SenseInfo:''
             @ (if SenseLen ?info = 0 then '' <none>''
                else concat (map (\<lambda>x. '' 0x'' @ fmt_0x 2 (unat x)) (sense_dump ?info)))
             @ [NL]
             @ ''FATAL ERROR: '' @ ''/dev/sg0'' @ '': Command '' @ ''BMIC_IDENTIFY_CONTROLLER''
             @ '' failed'' @ [NL]
           = ''HPSA SCSI error info:'' @ [NL]
           @ [TAB] @ ''ScsiStatus: 0x02'' @ [NL]
           @ [TAB] @ ''SenseLen: 3'' @ [NL]
           @ [TAB] @ ''CommandStatus: 0x0001'' @ [NL]
           @ [TAB] @ ''ResidualCnt: 0x00000194'' @ [NL]
           @ [TAB] @ ''SenseInfo: 0x70 0x00 0x05'' @ [NL]
           @ ''FATAL ERROR: /dev/sg0: Command BMIC_IDENTIFY_CONTROLLER failed'' @ [NL]"
    by code_simp
  have o: "stdout world0 = []" by (simp add: world0_def)
  from really_exec_cmd_command_failure[OF r s z refl c l,
      of sample_assert_text sample_strerror "''/dev/sg0''" 3 "''BMIC_IDENTIFY_CONTROLLER''" 4096
        world0]
  show ?thesis using r s z c l unfolding e o by blast
qed

subsection \<open>The report\<close>

lemma takeWhile_NUL_padding:
  "takeWhile (\<lambda>c. c \<noteq> NUL) (replicate k NUL @ replicate j NUL) = []"
  by (simp add: takeWhile_replicate flip: replicate_add)

lemma c_str_strncpy:
  "c_str (strncpy (replicate m NUL) field n) 0 = takeWhile (\<lambda>c. c \<noteq> NUL) (take n field)"
proof -
  let ?s = "takeWhile (\<lambda>c. c \<noteq> NUL) (take n field)"
  have all: "\<forall>c \<in> set ?s. c \<noteq> NUL" by (auto dest: set_takeWhileD)
  have d: "drop n (replicate m NUL) = replicate (m - n) NUL" by (rule drop_replicate)
  have "c_str (strncpy (replicate m NUL) field n) 0
          = takeWhile (\<lambda>c. c \<noteq> NUL)
              (?s @ replicate (n - length ?s) NUL @ replicate (m - n) NUL)"
    by (simp add: c_str_def strncpy_def Let_def)
  also have "\<dots> = ?s @ takeWhile (\<lambda>c. c \<noteq> NUL)
              (replicate (n - length ?s) NUL @ replicate (m - n) NUL)"
    by (rule takeWhile_append2) (use all in blast)
  finally show ?thesis by (simp only: takeWhile_NUL_padding append_Nil2)
qed

lemma print_info_str_buf_spec:
  assumes "n \<le> MAX_STR_BUF_LEN h"
  shows "print_info_str_buf h name field n w =
           w\<lparr>stdout := stdout w @ name @ ''='' @ [QUOTE] @ field_text field n @ [QUOTE, NL]\<rparr>"
proof -
  let ?b = "strncpy (replicate (MAX_STR_BUF_LEN h + 1) NUL) field n"
  obtain b' p' where t: "trim ?b 0 = (b', p')" by (cases "trim ?b 0")
  hence "c_str b' p' = trim_spec (c_str ?b 0)" by (rule c_str_trim)
  hence r: "c_str b' p' = field_text field n"
    by (simp only: c_str_strncpy field_text_def)
  show ?thesis unfolding print_info_str_buf_def Let_def t by (simp add: r)
qed

lemma fmt_d_0_1: "fmt_d 0 = ''0''" "fmt_d 1 = ''1''"
  by (simp_all add: fmt_d_def dec_digits.simps hex_digit_def)

lemma is_hba_mode_supported_0_1:
  "is_hba_mode_supported h hst c = 0 \<or> is_hba_mode_supported h hst c = 1"
  by (simp add: is_hba_mode_supported_def Let_def)

lemma length_fmt_0x_32:
  fixes v :: "32 word"
  shows "length (fmt_0x 8 (unat v)) = 8"
proof -
  have "unat v < 2 ^ 32" using unsigned_less[of v, where 'a = nat] by simp
  hence "unat v < 16 ^ 8" by simp
  thus ?thesis by (intro length_fmt_0x) simp_all
qed

lemma print_info_report_stdout:
  assumes "widths_ok h"
    and "length (board_id c) = 4" and "length (yet_more_controller_flags c) = 4"
  shows "stdout (print_info_report h hst c p w) = stdout w
           @ ''VENDOR_ID='' @ [QUOTE] @ field_text (vendor_id c) (VENDOR_ID_LEN h) @ [QUOTE, NL]
           @ ''PRODUCT_ID='' @ [QUOTE] @ field_text (product_id c) (PRODUCT_ID_LEN h) @ [QUOTE, NL]
           @ ''BOARD_ID='' @ [QUOTE] @ ''0x'' @ fmt_0x 8 (unat (le32_decode (board_id c)))
             @ [QUOTE, NL]
           @ ''SOFTWARE_NAME='' @ [QUOTE] @ field_text (software_name p) (SOFTWARE_NAME_LEN h)
             @ [QUOTE, NL]
           @ ''HARDWARE_NAME='' @ [QUOTE] @ field_text (hardware_name p) (HARDWARE_NAME_LEN h)
             @ [QUOTE, NL]
           @ ''RUNNING_FIRM_REV='' @ [QUOTE] @ field_text (running_firm_rev c) (FIRMWARE_REV_LEN h)
             @ [QUOTE, NL]
           @ ''ROM_FIRM_REV='' @ [QUOTE] @ field_text (rom_firm_rev c) (FIRMWARE_REV_LEN h)
             @ [QUOTE, NL]
           @ ''REC_ROM_INACTIVE_REV='' @ [QUOTE]
             @ field_text (rec_rom_inactive_rev c) (FIRMWARE_REV_LEN h) @ [QUOTE, NL]
           @ ''YET_MORE_CONTROLLER_FLAGS='' @ [QUOTE] @ ''0x''
             @ fmt_0x 8 (unat (le32_decode (yet_more_controller_flags c))) @ [QUOTE, NL]
           @ ''HBA_MODE_SUPPORTED=''
             @ (if is_hba_mode_supported h hst c = 1 then ''1'' else ''0'') @ [NL]
         \<and> length (fmt_0x 8 (unat (le32_decode (board_id c)))) = 8
         \<and> length (fmt_0x 8 (unat (le32_decode (yet_more_controller_flags c)))) = 8
         \<and> stderr (print_info_report h hst c p w) = stderr w"
proof -
  have w: "VENDOR_ID_LEN h \<le> MAX_STR_BUF_LEN h" "PRODUCT_ID_LEN h \<le> MAX_STR_BUF_LEN h"
    "SOFTWARE_NAME_LEN h \<le> MAX_STR_BUF_LEN h" "HARDWARE_NAME_LEN h \<le> MAX_STR_BUF_LEN h"
    "FIRMWARE_REV_LEN h \<le> MAX_STR_BUF_LEN h"
    using assms(1) by (simp_all add: widths_ok_def)
  have hba: "fmt_d (is_hba_mode_supported h hst c)
               = (if is_hba_mode_supported h hst c = 1 then ''1'' else ''0'')"
    using is_hba_mode_supported_0_1[of h hst c] by (auto simp: fmt_d_0_1)
  show ?thesis
    unfolding print_info_report_def print_info_fw_rev_def Let_def
      print_info_str_buf_spec[OF w(1)] print_info_str_buf_spec[OF w(2)]
      print_info_str_buf_spec[OF w(3)] print_info_str_buf_spec[OF w(4)]
      print_info_str_buf_spec[OF w(5)] hba
      le32toh_host_load32[OF assms(2)] le32toh_host_load32[OF assms(3)]
    by (simp add: length_fmt_0x_32)
qed

lemma widths_ok_sample: "widths_ok sample_h"
  by (simp add: widths_ok_def sample_h_def)

lemma sample_fields:
  "field_text (vendor_id sample_id) (VENDOR_ID_LEN sample_h) = ''ACME''"
  "field_text (product_id sample_id) (PRODUCT_ID_LEN sample_h) = ''Smart Array P410''"
  "field_text (software_name sample_params) (SOFTWARE_NAME_LEN sample_h) = ''soft ware''"
  "field_text (hardware_name sample_params) (HARDWARE_NAME_LEN sample_h) = ''hw''"
  "field_text (running_firm_rev sample_id) (FIRMWARE_REV_LEN sample_h) = ''6.64''"
  "field_text (rom_firm_rev sample_id) (FIRMWARE_REV_LEN sample_h) = ''6.6''"
  "field_text (rec_rom_inactive_rev sample_id) (FIRMWARE_REV_LEN sample_h) = ''6.4''"
  by code_simp+

lemma sample_numbers:
  "fmt_0x 8 (unat (le32_decode (board_id sample_id))) = ''0000103c''"
  "fmt_0x 8 (unat (le32_decode (yet_more_controller_flags sample_id))) = ''02000001''"
proof -
  have "le32_decode (board_id sample_id) = 0x103C"
    by (simp add: le32_decode_def sample_id_def)
  moreover have "unat (0x103C :: 32 word) = 4156" by simp
  moreover have "hex_digits 4156 = ''103c''"
    by (simp add: hex_digits.simps hex_digit_def)
  moreover have "zero_pad 8 ''103c'' = ''0000103c''" by code_simp
  ultimately show "fmt_0x 8 (unat (le32_decode (board_id sample_id))) = ''0000103c''"
    by (simp only: fmt_0x_def)
  have "le32_decode (yet_more_controller_flags sample_id) = 0x02000001"
    by (simp add: le32_decode_def sample_id_def)
  moreover have "unat (0x02000001 :: 32 word) = 33554433" by simp
  moreover have "hex_digits 33554433 = ''2000001''"
    by (simp add: hex_digits.simps hex_digit_def)
  moreover have "zero_pad 8 ''2000001'' = ''02000001''" by code_simp
  ultimately show
    "fmt_0x 8 (unat (le32_decode (yet_more_controller_flags sample_id))) = ''02000001''"
    by (simp only: fmt_0x_def)
qed

lemma sample_hba: "is_hba_mode_supported sample_h hst sample_id = 1"
proof -
  have "length (yet_more_controller_flags sample_id) = 4" by (simp add: sample_id_def)
  hence "le32toh hst (host_load32 hst (yet_more_controller_flags sample_id)) = 0x02000001"
    by (simp add: le32toh_host_load32) (simp add: le32_decode_def sample_id_def)
  thus ?thesis by (simp add: is_hba_mode_supported_def sample_h_def)
qed

lemma sample_report_stdout:
  "stdout (print_info_report sample_h hst sample_id sample_params world0) = sample_report"
proof -
  have l: "length (board_id sample_id) = 4" "length (yet_more_controller_flags sample_id) = 4"
    by (simp_all add: sample_id_def)
  show ?thesis
    using print_info_report_stdout[OF widths_ok_sample l, of hst sample_params world0]
    unfolding sample_fields sample_numbers sample_hba
    by (simp add: sample_report_def world0_def)
qed

lemma split_lines_line:
  "NL \<notin> set l \<Longrightarrow> split_lines (l @ NL # rest) = l # split_lines rest"
  by (induction l) auto

lemma split_lines_concat:
  "(\<And>l. l \<in> set ls \<Longrightarrow> NL \<notin> set l)
     \<Longrightarrow> split_lines (concat (map (\<lambda>l. l @ [NL]) ls)) = ls"
proof (induction ls)
  case Nil
  show ?case by simp
next
  case (Cons l ls)
  have "NL \<notin> set l" using Cons.prems by simp
  hence "split_lines (l @ NL # concat (map (\<lambda>l. l @ [NL]) ls))
           = l # split_lines (concat (map (\<lambda>l. l @ [NL]) ls))"
    by (rule split_lines_line)
  thus ?case using Cons by simp
qed

lemma hex_digit_not_NL: "d < 16 \<Longrightarrow> hex_digit d \<noteq> NL"
proof -
  assume "d < 16"
  hence "d < length ''0123456789abcdef''" by simp
  hence "''0123456789abcdef'' ! d \<in> set ''0123456789abcdef''" by (rule nth_mem)
  moreover have "NL \<notin> set ''0123456789abcdef''" by (simp add: NL_def)
  ultimately show ?thesis unfolding hex_digit_def by metis
qed

lemma hex_digits_not_NL: "NL \<notin> set (hex_digits n)"
proof (induction n rule: hex_digits.induct)
  case (1 n)
  show ?case
  proof (cases "n < 16")
    case True
    thus ?thesis using hex_digit_not_NL[of n] by (subst hex_digits.simps) auto
  next
    case False
    have "n mod 16 < 16" by simp
    hence "hex_digit (n mod 16) \<noteq> NL" by (rule hex_digit_not_NL)
    thus ?thesis using False 1 by (subst hex_digits.simps) auto
  qed
qed

lemma fmt_0x_not_NL: "NL \<notin> set (fmt_0x k n)"
  using hex_digits_not_NL[of n] by (auto simp: fmt_0x_def zero_pad_def NL_def)

lemma print_info_report_split:
  assumes "widths_ok h"
    and "length (board_id c) = 4" and "length (yet_more_controller_flags c) = 4"
    and "NL \<notin> set (field_text (vendor_id c) (VENDOR_ID_LEN h))"
    and "NL \<notin> set (field_text (product_id c) (PRODUCT_ID_LEN h))"
    and "NL \<notin> set (field_text (software_name p) (SOFTWARE_NAME_LEN h))"
    and "NL \<notin> set (field_text (hardware_name p) (HARDWARE_NAME_LEN h))"
    and "NL \<notin> set (field_text (running_firm_rev c) (FIRMWARE_REV_LEN h))"
    and "NL \<notin> set (field_text (rom_firm_rev c) (FIRMWARE_REV_LEN h))"
    and "NL \<notin> set (field_text (rec_rom_inactive_rev c) (FIRMWARE_REV_LEN h))"
  shows "split_lines (drop (length (stdout w)) (stdout (print_info_report h hst c p w))) =
           [''VENDOR_ID='' @ [QUOTE] @ field_text (vendor_id c) (VENDOR_ID_LEN h) @ [QUOTE],
            ''PRODUCT_ID='' @ [QUOTE] @ field_text (product_id c) (PRODUCT_ID_LEN h) @ [QUOTE],
            ''BOARD_ID='' @ [QUOTE] @ ''0x'' @ fmt_0x 8 (unat (le32_decode (board_id c)))
              @ [QUOTE],
            ''SOFTWARE_NAME='' @ [QUOTE] @ field_text (software_name p) (SOFTWARE_NAME_LEN h)
              @ [QUOTE],
            ''HARDWARE_NAME='' @ [QUOTE] @ field_text (hardware_name p) (HARDWARE_NAME_LEN h)
              @ [QUOTE],
            ''RUNNING_FIRM_REV='' @ [QUOTE]
              @ field_text (running_firm_rev c) (FIRMWARE_REV_LEN h) @ [QUOTE],
            ''ROM_FIRM_REV='' @ [QUOTE] @ field_text (rom_firm_rev c) (FIRMWARE_REV_LEN h)
              @ [QUOTE],
            ''REC_ROM_INACTIVE_REV='' @ [QUOTE]
              @ field_text (rec_rom_inactive_rev c) (FIRMWARE_REV_LEN h) @ [QUOTE],
            ''YET_MORE_CONTROLLER_FLAGS='' @ [QUOTE] @ ''0x''
              @ fmt_0x 8 (unat (le32_decode (yet_more_controller_flags c))) @ [QUOTE],
            ''HBA_MODE_SUPPORTED=''
              @ (if is_hba_mode_supported h hst c = 1 then ''1'' else ''0'')]"
    (is "split_lines ?out = ?ls")
proof -
  have e: "?out = concat (map (\<lambda>l. l @ [NL]) ?ls)"
    using print_info_report_stdout[OF assms(1-3), of hst p w] by simp
  have nl: "NL \<notin> set l" if "l \<in> set ?ls" for l
    using that assms(4-10) fmt_0x_not_NL[of 8 "unat (le32_decode (board_id c))"]
      fmt_0x_not_NL[of 8 "unat (le32_decode (yet_more_controller_flags c))"]
    by (auto simp: NL_def QUOTE_def split: if_splits)
  show ?thesis unfolding e by (rule split_lines_concat) (rule nl)
qed

lemma newline_fields:
  "field_text (vendor_id newline_id) (VENDOR_ID_LEN sample_h) = ''AC'' @ [NL] @ ''ME''"
  "product_id newline_id = product_id sample_id"
  "board_id newline_id = board_id sample_id"
  "running_firm_rev newline_id = running_firm_rev sample_id"
  "rom_firm_rev newline_id = rom_firm_rev sample_id"
  "rec_rom_inactive_rev newline_id = rec_rom_inactive_rev sample_id"
  "yet_more_controller_flags newline_id = yet_more_controller_flags sample_id"
        apply code_simp
  by (simp_all add: newline_id_def)

lemma newline_hba: "is_hba_mode_supported sample_h hst newline_id = 1"
  using sample_hba[of hst] by (simp add: is_hba_mode_supported_def newline_fields)

lemma newline_report_stdout:
  "stdout (print_info_report sample_h hst newline_id sample_params world0) =
     ''VENDOR_ID='' @ [QUOTE] @ ''AC'' @ [NL] @ ''ME'' @ [QUOTE, NL]
       @ drop 17 sample_report"
proof -
  have l: "length (board_id newline_id) = 4" "length (yet_more_controller_flags newline_id) = 4"
    by (simp_all add: newline_fields sample_id_def)
  have d: "drop 17 sample_report =
     ''PRODUCT_ID='' @ [QUOTE] @ ''Smart Array P410'' @ [QUOTE, NL]
     @ ''BOARD_ID='' @ [QUOTE] @ ''0x0000103c'' @ [QUOTE, NL]
     @ ''SOFTWARE_NAME='' @ [QUOTE] @ ''soft ware'' @ [QUOTE, NL]
     @ ''HARDWARE_NAME='' @ [QUOTE] @ ''hw'' @ [QUOTE, NL]
     @ ''RUNNING_FIRM_REV='' @ [QUOTE] @ ''6.64'' @ [QUOTE, NL]
     @ ''ROM_FIRM_REV='' @ [QUOTE] @ ''6.6'' @ [QUOTE, NL]
     @ ''REC_ROM_INACTIVE_REV='' @ [QUOTE] @ ''6.4'' @ [QUOTE, NL]
     @ ''YET_MORE_CONTROLLER_FLAGS='' @ [QUOTE] @ ''0x02000001'' @ [QUOTE, NL]
     @ ''HBA_MODE_SUPPORTED=1'' @ [NL]"
    by (simp add: sample_report_def)
  show ?thesis
    using print_info_report_stdout[OF widths_ok_sample l, of hst sample_params world0]
    unfolding d newline_hba newline_fields sample_fields sample_numbers
    by (simp add: world0_def)
qed

text \<open>
  C3 (as amended). The report is ten newline-terminated entries in this order: vendor id,
  product id, board id, software name, hardware name, running firmware revision, ROM
  firmware revision, recovery-ROM-inactive firmware revision, capability flags, HBA mode
  supported. The string members are printed as \<open>KEY='value'\<close> with the trimmed value.
  The two numbers are read little-endian and printed as \<open>KEY='0xXXXXXXXX'\<close>: eight
  hexadecimal digits after \<open>0x\<close>, inside single quotes like the strings. Only the last
  entry, \<open>HBA_MODE_SUPPORTED=0\<close> or \<open>=1\<close>, has no quotes. When none of the seven
  trimmed string values contains a newline, the report is exactly these ten lines.
\<close>

theorem print_info_report_lines:
  assumes "widths_ok h"
    and "length (board_id c) = 4" and "length (yet_more_controller_flags c) = 4"
  shows "stdout (print_info_report h hst c p w) = stdout w
           @ ''VENDOR_ID='' @ [QUOTE] @ field_text (vendor_id c) (VENDOR_ID_LEN h) @ [QUOTE, NL]
           @ ''PRODUCT_ID='' @ [QUOTE] @ field_text (product_id c) (PRODUCT_ID_LEN h) @ [QUOTE, NL]
           @ ''BOARD_ID='' @ [QUOTE] @ ''0x'' @ fmt_0x 8 (unat (le32_decode (board_id c)))
             @ [QUOTE, NL]
           @ ''SOFTWARE_NAME='' @ [QUOTE] @ field_text (software_name p) (SOFTWARE_NAME_LEN h)
             @ [QUOTE, NL]
           @ ''HARDWARE_NAME='' @ [QUOTE] @ field_text (hardware_name p) (HARDWARE_NAME_LEN h)
             @ [QUOTE, NL]
           @ ''RUNNING_FIRM_REV='' @ [QUOTE] @ field_text (running_firm_rev c) (FIRMWARE_REV_LEN h)
             @ [QUOTE, NL]
           @ ''ROM_FIRM_REV='' @ [QUOTE] @ field_text (rom_firm_rev c) (FIRMWARE_REV_LEN h)
             @ [QUOTE, NL]
           @ ''REC_ROM_INACTIVE_REV='' @ [QUOTE]
             @ field_text (rec_rom_inactive_rev c) (FIRMWARE_REV_LEN h) @ [QUOTE, NL]
           @ ''YET_MORE_CONTROLLER_FLAGS='' @ [QUOTE] @ ''0x''
             @ fmt_0x 8 (unat (le32_decode (yet_more_controller_flags c))) @ [QUOTE, NL]
           @ ''HBA_MODE_SUPPORTED=''
             @ (if is_hba_mode_supported h hst c = 1 then ''1'' else ''0'') @ [NL]
         \<and> length (fmt_0x 8 (unat (le32_decode (board_id c)))) = 8
         \<and> length (fmt_0x 8 (unat (le32_decode (yet_more_controller_flags c)))) = 8
         \<and> stderr (print_info_report h hst c p w) = stderr w
         \<and> (NL \<notin> set (field_text (vendor_id c) (VENDOR_ID_LEN h)) \<and>
            NL \<notin> set (field_text (product_id c) (PRODUCT_ID_LEN h)) \<and>
            NL \<notin> set (field_text (software_name p) (SOFTWARE_NAME_LEN h)) \<and>
            NL \<notin> set (field_text (hardware_name p) (HARDWARE_NAME_LEN h)) \<and>
            NL \<notin> set (field_text (running_firm_rev c) (FIRMWARE_REV_LEN h)) \<and>
            NL \<notin> set (field_text (rom_firm_rev c) (FIRMWARE_REV_LEN h)) \<and>
            NL \<notin> set (field_text (rec_rom_inactive_rev c) (FIRMWARE_REV_LEN h)) \<longrightarrow>
            split_lines (drop (length (stdout w)) (stdout (print_info_report h hst c p w))) =
              [''VENDOR_ID='' @ [QUOTE] @ field_text (vendor_id c) (VENDOR_ID_LEN h) @ [QUOTE],
               ''PRODUCT_ID='' @ [QUOTE] @ field_text (product_id c) (PRODUCT_ID_LEN h) @ [QUOTE],
               ''BOARD_ID='' @ [QUOTE] @ ''0x'' @ fmt_0x 8 (unat (le32_decode (board_id c)))
                 @ [QUOTE],
               ''SOFTWARE_NAME='' @ [QUOTE] @ field_text (software_name p) (SOFTWARE_NAME_LEN h)
                 @ [QUOTE],
               ''HARDWARE_NAME='' @ [QUOTE] @ field_text (hardware_name p) (HARDWARE_NAME_LEN h)
                 @ [QUOTE],
               ''RUNNING_FIRM_REV='' @ [QUOTE]
                 @ field_text (running_firm_rev c) (FIRMWARE_REV_LEN h) @ [QUOTE],
               ''ROM_FIRM_REV='' @ [QUOTE] @ field_text (rom_firm_rev c) (FIRMWARE_REV_LEN h)
                 @ [QUOTE],
               ''REC_ROM_INACTIVE_REV='' @ [QUOTE]
                 @ field_text (rec_rom_inactive_rev c) (FIRMWARE_REV_LEN h) @ [QUOTE],
               ''YET_MORE_CONTROLLER_FLAGS='' @ [QUOTE] @ ''0x''
                 @ fmt_0x 8 (unat (le32_decode (yet_more_controller_flags c))) @ [QUOTE],
               ''HBA_MODE_SUPPORTED=''
                 @ (if is_hba_mode_supported h hst c = 1 then ''1'' else ''0'')])"
  using print_info_report_stdout[OF assms, of hst p w]
    print_info_report_split[OF assms, of p w hst]
  by blast

theorem print_info_report_lines_witness:
  "widths_ok sample_h \<and> length (board_id sample_id) = 4 \<and>
   length (yet_more_controller_flags sample_id) = 4 \<and>
   NL \<notin> set (field_text (vendor_id sample_id) (VENDOR_ID_LEN sample_h)) \<and>
   NL \<notin> set (field_text (product_id sample_id) (PRODUCT_ID_LEN sample_h)) \<and>
   NL \<notin> set (field_text (software_name sample_params) (SOFTWARE_NAME_LEN sample_h)) \<and>
   NL \<notin> set (field_text (hardware_name sample_params) (HARDWARE_NAME_LEN sample_h)) \<and>
   NL \<notin> set (field_text (running_firm_rev sample_id) (FIRMWARE_REV_LEN sample_h)) \<and>
   NL \<notin> set (field_text (rom_firm_rev sample_id) (FIRMWARE_REV_LEN sample_h)) \<and>
   NL \<notin> set (field_text (rec_rom_inactive_rev sample_id) (FIRMWARE_REV_LEN sample_h)) \<and>
   stdout (print_info_report sample_h Big_endian sample_id sample_params world0) = sample_report \<and>
   split_lines (stdout (print_info_report sample_h Big_endian sample_id sample_params world0)) =
     [''VENDOR_ID='' @ [QUOTE] @ ''ACME'' @ [QUOTE],
      ''PRODUCT_ID='' @ [QUOTE] @ ''Smart Array P410'' @ [QUOTE],
      ''BOARD_ID='' @ [QUOTE] @ ''0x0000103c'' @ [QUOTE],
      ''SOFTWARE_NAME='' @ [QUOTE] @ ''soft ware'' @ [QUOTE],
      ''HARDWARE_NAME='' @ [QUOTE] @ ''hw'' @ [QUOTE],
      ''RUNNING_FIRM_REV='' @ [QUOTE] @ ''6.64'' @ [QUOTE],
      ''ROM_FIRM_REV='' @ [QUOTE] @ ''6.6'' @ [QUOTE],
      ''REC_ROM_INACTIVE_REV='' @ [QUOTE] @ ''6.4'' @ [QUOTE],
      ''YET_MORE_CONTROLLER_FLAGS='' @ [QUOTE] @ ''0x02000001'' @ [QUOTE],
      ''HBA_MODE_SUPPORTED=1'']"
proof -
  have l: "length (board_id sample_id) = 4" "length (yet_more_controller_flags sample_id) = 4"
    by (simp_all add: sample_id_def)
  have n: "NL \<notin> set (field_text (vendor_id sample_id) (VENDOR_ID_LEN sample_h))"
    "NL \<notin> set (field_text (product_id sample_id) (PRODUCT_ID_LEN sample_h))"
    "NL \<notin> set (field_text (software_name sample_params) (SOFTWARE_NAME_LEN sample_h))"
    "NL \<notin> set (field_text (hardware_name sample_params) (HARDWARE_NAME_LEN sample_h))"
    "NL \<notin> set (field_text (running_firm_rev sample_id) (FIRMWARE_REV_LEN sample_h))"
    "NL \<notin> set (field_text (rom_firm_rev sample_id) (FIRMWARE_REV_LEN sample_h))"
    "NL \<notin> set (field_text (rec_rom_inactive_rev sample_id) (FIRMWARE_REV_LEN sample_h))"
    unfolding sample_fields by (simp_all add: NL_def)
  note t = print_info_report_lines[OF widths_ok_sample l, of Big_endian sample_params world0]
  have a: "stdout (print_info_report sample_h Big_endian sample_id sample_params world0)
             = sample_report"
    using t unfolding sample_fields sample_numbers sample_hba
    by (simp add: sample_report_def world0_def)
  note c = t[THEN conjunct2, THEN conjunct2, THEN conjunct2, THEN conjunct2, THEN mp,
      OF conjI[OF n(1) conjI[OF n(2) conjI[OF n(3) conjI[OF n(4) conjI[OF n(5)
        conjI[OF n(6) n(7)]]]]]]]
  have b: "split_lines
          (stdout (print_info_report sample_h Big_endian sample_id sample_params world0)) =
         [''VENDOR_ID='' @ [QUOTE] @ ''ACME'' @ [QUOTE],
          ''PRODUCT_ID='' @ [QUOTE] @ ''Smart Array P410'' @ [QUOTE],
          ''BOARD_ID='' @ [QUOTE] @ ''0x0000103c'' @ [QUOTE],
          ''SOFTWARE_NAME='' @ [QUOTE] @ ''soft ware'' @ [QUOTE],
          ''HARDWARE_NAME='' @ [QUOTE] @ ''hw'' @ [QUOTE],
          ''RUNNING_FIRM_REV='' @ [QUOTE] @ ''6.64'' @ [QUOTE],
          ''ROM_FIRM_REV='' @ [QUOTE] @ ''6.6'' @ [QUOTE],
          ''REC_ROM_INACTIVE_REV='' @ [QUOTE] @ ''6.4'' @ [QUOTE],
          ''YET_MORE_CONTROLLER_FLAGS='' @ [QUOTE] @ ''0x02000001'' @ [QUOTE],
          ''HBA_MODE_SUPPORTED=1'']"
    using c[unfolded sample_fields sample_numbers sample_hba] by (simp add: world0_def)
  show ?thesis using widths_ok_sample l n a b by blast
qed

text \<open>
  The third line of the sample report is \<open>BOARD_ID='0x0000103c'\<close>, with the quotes; it
  is not the unquoted \<open>BOARD_ID=0x0000103c\<close>. And when the vendor id holds a newline
  between \<open>AC\<close> and \<open>ME\<close>, the report is eleven lines, the first two being
  \<open>VENDOR_ID='AC\<close> and \<open>ME'\<close>.
\<close>

theorem report_format_counterexample:
  "split_lines (stdout (print_info_report sample_h Little_endian sample_id sample_params world0)) ! 2
     = ''BOARD_ID='' @ [QUOTE] @ ''0x0000103c'' @ [QUOTE] \<and>
   split_lines (stdout (print_info_report sample_h Little_endian sample_id sample_params world0)) ! 2
     \<noteq> ''BOARD_ID=0x0000103c'' \<and>
   length (split_lines
     (stdout (print_info_report sample_h Little_endian newline_id sample_params world0))) = 11 \<and>
   take 2 (split_lines
     (stdout (print_info_report sample_h Little_endian newline_id sample_params world0)))
     = [''VENDOR_ID='' @ [QUOTE] @ ''AC'', ''ME'' @ [QUOTE]]"
proof -
  have "split_lines sample_report ! 2 = ''BOARD_ID='' @ [QUOTE] @ ''0x0000103c'' @ [QUOTE]"
    by code_simp
  moreover have "''BOARD_ID='' @ [QUOTE] @ ''0x0000103c'' @ [QUOTE] \<noteq> ''BOARD_ID=0x0000103c''"
    by code_simp
  moreover have "length (split_lines (''VENDOR_ID='' @ [QUOTE] @ ''AC'' @ [NL] @ ''ME''
                   @ [QUOTE, NL] @ drop 17 sample_report)) = 11"
    by code_simp
  moreover have "take 2 (split_lines (''VENDOR_ID='' @ [QUOTE] @ ''AC'' @ [NL] @ ''ME''
                   @ [QUOTE, NL] @ drop 17 sample_report))
                   = [''VENDOR_ID='' @ [QUOTE] @ ''AC'', ''ME'' @ [QUOTE]]"
    by code_simp
  ultimately show ?thesis unfolding sample_report_stdout newline_report_stdout by metis
qed

subsection \<open>Whole runs\<close>

lemma die_eq: "die msg w = (Exited 1, w\<lparr>stderr := stderr w @ fatal_line msg\<rparr>)"
  by (simp add: die_def really_die_def fatal_line_def)

lemma die_dev_eq:
  "die_dev path msg w = (Exited 1, w\<lparr>stderr := stderr w @ fatal_line (path @ '': '' @ msg)\<rparr>)"
  by (simp add: die_dev_def die_eq)

lemma die_dev_errno_eq:
  "die_dev_errno se path msg n w =
     (Exited 1, w\<lparr>stderr := stderr w
        @ fatal_line (path @ '': '' @ msg @ '': '' @ fmt_d n @ '' '' @ se n)\<rparr>)"
  by (simp add: die_dev_errno_def die_dev_eq)

text \<open>The option loop either returns a state and leaves the world alone, or dies.\<close>

lemma getopt_loop_shape:
  "(\<exists>st'. getopt_loop gs st w = (Returned st', w)) \<or>
   (\<exists>msg. getopt_loop gs st w = (Exited 1, w\<lparr>stderr := stderr w @ fatal_line msg\<rparr>))"
proof (induction gs arbitrary: st)
  case Nil
  show ?case by simp
next
  case (Cons g gs)
  obtain a p where st: "st = (a, p)" by (cases st)
  show ?case
    unfolding st using Cons[of "(ACTION_HELP, p)"] Cons[of "(ACTION_VERSION, p)"]
      Cons[of "(ACTION_INFO, Some (optarg g))"]
    by (auto simp: die_eq simp del: of_char_Char)
qed

lemma print_cmd_error_text:
  "print_cmd_error info w = w\<lparr>stderr := stderr w @ cmd_error_text info\<rparr>"
  by (simp add: print_cmd_error_def cmd_error_text_def world0_def Let_def)

lemma print_info_str_buf_text:
  "print_info_str_buf h name field n w = w\<lparr>stdout := stdout w @ str_line h name field n\<rparr>"
  by (simp add: print_info_str_buf_def str_line_def world0_def Let_def split: prod.splits)

lemma print_info_report_text:
  "print_info_report h hst c p w = w\<lparr>stdout := stdout w @ report_text h hst c p\<rparr>"
  by (simp add: print_info_report_def print_info_fw_rev_def print_info_str_buf_text
      report_text_def Let_def)

lemma really_exec_cmd_eq:
  assumes "recognized h cmd_num" and "sz \<le> UINT16_MAX"
  shows "really_exec_cmd h ad se path fd cmd_num cmd_name b sz reply w =
     (if rc reply \<noteq> 0
      then (Exited 1,
            w\<lparr>syscalls := syscalls w @ [Sys_ioctl_passthru fd (built_cmd h cmd_num b sz)],
              stderr := stderr w @ fatal_line (ioctl_failed_msg se path cmd_name reply)\<rparr>)
      else if CommandStatus (reply_error_info reply) \<noteq> 0
      then (Exited 1,
            w\<lparr>syscalls := syscalls w @ [Sys_ioctl_passthru fd (built_cmd h cmd_num b sz)],
              stderr := stderr w @ cmd_error_text (reply_error_info reply)
                          @ fatal_line (cmd_failed_msg path cmd_name)\<rparr>)
      else (Returned (reply_data reply),
            w\<lparr>syscalls := syscalls w @ [Sys_ioctl_passthru fd (built_cmd h cmd_num b sz)]\<rparr>))"
proof -
  obtain c where c: "fill_cmd h (zero_cmd SENSEINFOBYTES) cmd_num b sz = Inr c"
    using assms by (simp add: fill_cmd_ok)
  hence b: "built_cmd h cmd_num b sz = c" by (simp add: built_cmd_def)
  show ?thesis
    unfolding really_exec_cmd_def c b
    by (simp add: Let_def die_dev_errno_eq die_dev_eq print_cmd_error_text
        ioctl_failed_msg_def cmd_failed_msg_def)
qed

lemma print_info_eq:
  assumes "sizes_ok h"
  shows "print_info h e path fd w =
     (if rc (identify_reply e) \<noteq> 0
      then (Exited 1,
            w\<lparr>syscalls := syscalls w @ [ioctl_identify h e fd],
              stderr := stderr w @ fatal_line
                (ioctl_failed_msg (strerror e) path ''BMIC_IDENTIFY_CONTROLLER'' (identify_reply e))\<rparr>)
      else if CommandStatus (reply_error_info (identify_reply e)) \<noteq> 0
      then (Exited 1,
            w\<lparr>syscalls := syscalls w @ [ioctl_identify h e fd],
              stderr := stderr w @ cmd_error_text (reply_error_info (identify_reply e))
                          @ fatal_line (cmd_failed_msg path ''BMIC_IDENTIFY_CONTROLLER'')\<rparr>)
      else if rc (params_reply e) \<noteq> 0
      then (Exited 1,
            w\<lparr>syscalls := syscalls w @ [ioctl_identify h e fd, ioctl_params h e fd],
              stderr := stderr w @ fatal_line
                (ioctl_failed_msg (strerror e) path ''BMIC_SENSE_CONTROLLER_PARAMETERS''
                   (params_reply e))\<rparr>)
      else if CommandStatus (reply_error_info (params_reply e)) \<noteq> 0
      then (Exited 1,
            w\<lparr>syscalls := syscalls w @ [ioctl_identify h e fd, ioctl_params h e fd],
              stderr := stderr w @ cmd_error_text (reply_error_info (params_reply e))
                          @ fatal_line (cmd_failed_msg path ''BMIC_SENSE_CONTROLLER_PARAMETERS'')\<rparr>)
      else (Returned (),
            w\<lparr>syscalls := syscalls w @ [ioctl_identify h e fd, ioctl_params h e fd],
              stdout := stdout w @ report_text h (host e) (reply_data (identify_reply e))
                          (reply_data (params_reply e))\<rparr>))"
proof -
  have r1: "recognized h (BMIC_IDENTIFY_CONTROLLER h)"
    and r2: "recognized h (BMIC_SENSE_CONTROLLER_PARAMETERS h)"
    by (simp_all add: recognized_def)
  have s1: "sizeof_identify h \<le> UINT16_MAX" and s2: "sizeof_params h \<le> UINT16_MAX"
    using assms by (simp_all add: sizes_ok_def)
  show ?thesis
    unfolding print_info_def identify_controller_def sense_controller_parameters_def
      really_exec_cmd_eq[OF r1 s1] really_exec_cmd_eq[OF r2 s2]
    by (simp add: ioctl_identify_def ioctl_params_def print_info_report_text)
qed

lemma main_flat:
  assumes "sizes_ok h"
    and "getopt_loop (getopt_returns e) (ACTION_UNKNOWN, None) world0 = (Returned (a, p), world0)"
  shows "main h e = main_flat h e a p"
proof (cases "args_left e")
  case True
  thus ?thesis
    unfolding main_def assms(2) main_flat_def by (simp add: die_eq world0_def)
next
  case nl: False
  show ?thesis
  proof (cases p)
    case None
    show ?thesis
      unfolding main_def assms(2) main_flat_def
      using nl None
      by (cases a)
        (simp_all add: run_action_def print_info_eq[OF assms(1)] die_eq print_help_def
          print_version_def w_open_def fd_of_def action_done_def world0_def path_str_def)
  next
    case (Some q)
    show ?thesis
    proof (cases "open_ret e = - 1")
      case True
      thus ?thesis
        unfolding main_def assms(2) main_flat_def using nl Some
        by (simp add: open_dev_def die_dev_errno_eq w_open_def world0_def errno_msg_def
            path_str_def Let_def)
    next
      case False
      show ?thesis
        unfolding main_def assms(2) main_flat_def
        using nl Some False
        by (cases a)
          (simp_all add: run_action_def print_info_eq[OF assms(1)] die_eq print_help_def
            print_version_def w_open_def fd_of_def action_done_def world0_def path_str_def
            open_dev_def close_dev_def die_dev_errno_eq errno_msg_def Let_def)
    qed
  qed
qed

lemma parse_result_cases:
  obtains (parsed) a p where "parse_result e = (Returned (a, p), world0)"
  | (usage) msg where "parse_result e = (Exited 1, world0\<lparr>stderr := fatal_line msg\<rparr>)"
  using getopt_loop_shape[of "getopt_returns e" "(ACTION_UNKNOWN, None)" world0]
  by (auto simp: parse_result_def world0_def)

lemma main_usage:
  assumes "parse_result e = (Exited n, w)"
  shows "main h e = (Exited n, w)"
  using assms by (simp add: main_def parse_result_def)

lemma main_parsed:
  assumes "sizes_ok h" and "parse_result e = (Returned (a, p), world0)"
  shows "main h e = main_flat h e a p"
  using assms main_flat by (simp add: parse_result_def)

lemma last_fatal_line [simp]: "last (fatal_line msg) = NL" "fatal_line msg \<noteq> []"
  by (simp_all add: fatal_line_def)



lemma world0_simps [simp]: "stdout world0 = []" "stderr world0 = []" "syscalls world0 = []"
  by (simp_all add: world0_def)

lemma w_open_simps [simp]: "stdout (w_open p) = []" "stderr (w_open p) = []"
  by (simp_all add: w_open_def split: option.splits)






lemma parse_result_close_ret [simp]: "parse_result (e\<lparr>close_ret := x\<rparr>) = parse_result e"
  by (simp add: parse_result_def)

lemma no_close_w_open: "Sys_close fd \<notin> set (syscalls (w_open p))"
  by (simp add: w_open_def split: option.splits)

lemma main_flat_trichotomy:
  "fst (main_flat h e a p) = Returned 0 \<or>
   (fst (main_flat h e a p) = Exited 1 \<and> stdout (snd (main_flat h e a p)) = [] \<and>
    (\<exists>dump msg. stderr (snd (main_flat h e a p)) = dump @ fatal_line msg \<and>
                  (dump = [] \<or> (\<exists>info. dump = cmd_error_text info))) \<and>
    (\<forall>fd. Sys_close fd \<notin> set (syscalls (snd (main_flat h e a p))))) \<or>
   (fst (main_flat h e a p) = Exited 1 \<and> close_ret e \<noteq> 0 \<and>
    fst (main_flat h (e\<lparr>close_ret := 0\<rparr>) a p) = Returned 0 \<and>
    stdout (snd (main_flat h e a p)) = stdout (snd (main_flat h (e\<lparr>close_ret := 0\<rparr>) a p)) \<and>
    stderr (snd (main_flat h e a p)) = stderr (snd (main_flat h (e\<lparr>close_ret := 0\<rparr>) a p))
       @ fatal_line (errno_msg e p ''close() failed'' (close_errno e)) \<and>
    syscalls (snd (main_flat h e a p)) = syscalls (snd (main_flat h (e\<lparr>close_ret := 0\<rparr>) a p)))"
proof -
  have nc: "\<And>fd. Sys_close fd \<notin> set (syscalls (w_open p))" by (rule no_close_w_open)
  have ad: "action_done h (e\<lparr>close_ret := 0\<rparr>) a p = action_done h e a p"
    by (simp add: action_done_def ioctl_identify_def ioctl_params_def fd_of_def
        split: cli_action.splits option.splits)
  have fd: "fd_of (e\<lparr>close_ret := 0\<rparr>) p = fd_of e p"
    by (simp add: fd_of_def split: option.splits)
  show ?thesis
    unfolding main_flat_def[of h "e\<lparr>close_ret := 0\<rparr>"] ad fd
    unfolding main_flat_def
    using nc
    by (simp add: ioctl_identify_def ioctl_params_def errno_msg_def) blast
qed

text \<open>
  C8 (as amended). A run ends in one of three ways. It completes the action and exits 0.
  Or it exits 1 before any result: nothing is on stdout, stderr holds at most the error
  dump of a failed command and then the single fatal line, and the device was not closed.
  Or, when \<open>close\<close> fails, it exits 1 after the result: stdout, stderr and the system
  calls are those of the run in which \<open>close\<close> succeeds and which exits 0, followed by
  the fatal line about \<open>close\<close>.
\<close>

theorem fatal_exit_points:
  assumes "sizes_ok h" and "main h e = (r, w)"
  shows "r = Returned 0 \<or>
         (r = Exited 1 \<and> stdout w = [] \<and>
          (\<exists>dump msg. stderr w = dump @ ''FATAL ERROR: '' @ msg @ [NL] \<and>
                        (dump = [] \<or> (\<exists>info. dump = cmd_error_text info))) \<and>
          (\<forall>fd. Sys_close fd \<notin> set (syscalls w))) \<or>
         (r = Exited 1 \<and> close_ret e \<noteq> 0 \<and>
          (\<exists>w0 q. main h (e\<lparr>close_ret := 0\<rparr>) = (Returned 0, w0) \<and>
                   stdout w = stdout w0 \<and>
                   stderr w = stderr w0 @ ''FATAL ERROR: '' @ q @ '': close() failed: ''
                                @ fmt_d (close_errno e) @ '' '' @ strerror e (close_errno e) @ [NL] \<and>
                   syscalls w = syscalls w0))"
proof (cases e rule: parse_result_cases)
  case (usage msg)
  hence "main h e = (Exited 1, world0\<lparr>stderr := fatal_line msg\<rparr>)" by (rule main_usage)
  hence "r = Exited 1" and "w = world0\<lparr>stderr := fatal_line msg\<rparr>"
    using assms(2) by simp_all
  hence "r = Exited 1 \<and> stdout w = [] \<and>
          (\<exists>dump msg. stderr w = dump @ ''FATAL ERROR: '' @ msg @ [NL] \<and>
                        (dump = [] \<or> (\<exists>info. dump = cmd_error_text info))) \<and>
          (\<forall>fd. Sys_close fd \<notin> set (syscalls w))"
    by (auto simp: fatal_line_def)
  thus ?thesis by blast
next
  case (parsed a p)
  hence m: "main h e = main_flat h e a p" using assms(1) by (simp add: main_parsed)
  have "parse_result (e\<lparr>close_ret := 0\<rparr>) = (Returned (a, p), world0)"
    using parsed by simp
  hence m0: "main h (e\<lparr>close_ret := 0\<rparr>) = main_flat h (e\<lparr>close_ret := 0\<rparr>) a p"
    using assms(1) by (simp add: main_parsed)
  have r: "r = fst (main_flat h e a p)" and w: "w = snd (main_flat h e a p)"
    using m assms(2) by (metis fst_conv, metis snd_conv)
  show ?thesis
    using main_flat_trichotomy[of h e a p]
    unfolding r w m0
    by (auto simp: fatal_line_def errno_msg_def prod_eq_iff)
qed

lemma sizes_ok_sample: "sizes_ok sample_h"
  by (simp add: sizes_ok_def sample_h_def UINT16_MAX_def)

lemma parse_result_sample:
  "parse_result sample_env = (Returned (ACTION_INFO, Some ''/dev/sg0''), world0)"
  by (simp add: parse_result_def sample_env_def)

lemma report_text_stdout:
  "report_text h hst c p = stdout (print_info_report h hst c p world0)"
  by (simp add: print_info_report_text)

lemma report_text_sample: "report_text sample_h hst sample_id sample_params = sample_report"
  by (simp only: report_text_stdout sample_report_stdout)

lemma cmd_ok_sample: "cmd_ok ok_id_reply" "cmd_ok ok_params_reply"
  by (simp_all add: cmd_ok_def ok_id_reply_def ok_params_reply_def zero_ErrorInfo_def)

lemma sample_env_fields:
  "args_left sample_env = False" "open_ret sample_env = 3" "close_ret sample_env = 0"
  "identify_reply sample_env = ok_id_reply" "params_reply sample_env = ok_params_reply"
  "host sample_env = Little_endian" "strerror sample_env = sample_strerror"
  by (simp_all add: sample_env_def)

lemma main_sample:
  "fst (main sample_h sample_env) = Returned 0"
  "stdout (snd (main sample_h sample_env)) = sample_report"
  "stderr (snd (main sample_h sample_env)) = []"
proof -
  have m: "main sample_h sample_env = main_flat sample_h sample_env ACTION_INFO (Some ''/dev/sg0'')"
    using sizes_ok_sample parse_result_sample by (rule main_parsed)
  have c: "rc ok_id_reply = 0" "CommandStatus (reply_error_info ok_id_reply) = 0"
    "rc ok_params_reply = 0" "CommandStatus (reply_error_info ok_params_reply) = 0"
    using cmd_ok_sample by (simp_all add: cmd_ok_def)
  have d: "reply_data ok_id_reply = sample_id" "reply_data ok_params_reply = sample_params"
    by (simp_all add: ok_id_reply_def ok_params_reply_def)
  show "fst (main sample_h sample_env) = Returned 0"
    unfolding m by (simp add: main_flat_def sample_env_fields c)
  show "stdout (snd (main sample_h sample_env)) = sample_report"
    unfolding m
    by (simp add: main_flat_def sample_env_fields c d action_done_def report_text_sample)
  show "stderr (snd (main sample_h sample_env)) = []"
    unfolding m
    by (simp add: main_flat_def sample_env_fields c d action_done_def)
qed

lemma main_close_fails:
  "fst (main sample_h close_fails_env) = Exited 1"
  "stdout (snd (main sample_h close_fails_env)) = sample_report"
proof -
  have p: "parse_result close_fails_env = (Returned (ACTION_INFO, Some ''/dev/sg0''), world0)"
    by (simp add: close_fails_env_def parse_result_def sample_env_def)
  have m: "main sample_h close_fails_env
             = main_flat sample_h close_fails_env ACTION_INFO (Some ''/dev/sg0'')"
    using sizes_ok_sample p by (rule main_parsed)
  have f: "args_left close_fails_env = False" "open_ret close_fails_env = 3"
    "close_ret close_fails_env = - 1"
    "identify_reply close_fails_env = ok_id_reply" "params_reply close_fails_env = ok_params_reply"
    "host close_fails_env = Little_endian"
    by (simp_all add: close_fails_env_def sample_env_def)
  have c: "rc ok_id_reply = 0" "CommandStatus (reply_error_info ok_id_reply) = 0"
    "rc ok_params_reply = 0" "CommandStatus (reply_error_info ok_params_reply) = 0"
    using cmd_ok_sample by (simp_all add: cmd_ok_def)
  have d: "reply_data ok_id_reply = sample_id" "reply_data ok_params_reply = sample_params"
    by (simp_all add: ok_id_reply_def ok_params_reply_def)
  show "fst (main sample_h close_fails_env) = Exited 1"
    unfolding m by (simp add: main_flat_def f c)
  show "stdout (snd (main sample_h close_fails_env)) = sample_report"
    unfolding m by (simp add: main_flat_def f c d action_done_def report_text_sample)
qed

text \<open>
  With \<open>-i /dev/sg0\<close>, both commands succeeding and \<open>close\<close> failing, the run prints
  the whole report, the same as the run that exits 0, and then exits 1.
\<close>

theorem fatal_exit_after_report_counterexample:
  "fst (main sample_h sample_env) = Returned 0 \<and>
   stdout (snd (main sample_h sample_env)) = sample_report \<and>
   fst (main sample_h close_fails_env) = Exited 1 \<and>
   stdout (snd (main sample_h close_fails_env)) = sample_report"
  using main_sample(1,2) main_close_fails by blast

theorem fatal_exit_points_witness:
  "sizes_ok sample_h \<and> fst (main sample_h close_fails_env) = Exited 1 \<and>
   (\<exists>w0 q. main sample_h (close_fails_env\<lparr>close_ret := 0\<rparr>) = (Returned 0, w0) \<and>
        stdout (snd (main sample_h close_fails_env)) = stdout w0 \<and>
        stderr (snd (main sample_h close_fails_env)) =
          stderr w0 @ ''FATAL ERROR: '' @ q @ '': close() failed: ''
            @ fmt_d (close_errno close_fails_env) @ '' ''
            @ strerror close_fails_env (close_errno close_fails_env) @ [NL] \<and>
        syscalls (snd (main sample_h close_fails_env)) = syscalls w0)"
proof -
  have ne: "sample_report \<noteq> []" by (simp add: sample_report_def)
  have "main sample_h close_fails_env
          = (fst (main sample_h close_fails_env), snd (main sample_h close_fails_env))"
    by simp
  from fatal_exit_points[OF sizes_ok_sample this]
  show ?thesis using main_close_fails ne sizes_ok_sample by auto
qed





subsection \<open>Assertions and the option loop\<close>


lemma really_exec_cmd_not_Assert_0:
  assumes "recognized h cmd_num"
  shows "fst (really_exec_cmd h ad se path fd cmd_num cmd_name b sz reply w) \<noteq> Aborted Assert_0"
proof (cases "sz \<le> UINT16_MAX")
  case True
  show ?thesis by (simp add: really_exec_cmd_eq[OF assms True])
next
  case False
  show ?thesis
    by (simp add: really_exec_cmd_def fill_cmd_too_big[OF assms False])
qed

lemma really_exec_cmd_unrecognized:
  assumes "\<not> recognized h cmd_num"
  shows "really_exec_cmd h ad se path fd cmd_num cmd_name b sz reply w
           = (Aborted Assert_0, w\<lparr>stderr := stderr w @ ad Assert_0\<rparr>)"
  by (simp add: really_exec_cmd_def fill_cmd_unrecognized[OF assms])

lemma print_info_not_Assert_0: "fst (print_info h e path fd w) \<noteq> Aborted Assert_0"
proof -
  have r1: "recognized h (BMIC_IDENTIFY_CONTROLLER h)"
    and r2: "recognized h (BMIC_SENSE_CONTROLLER_PARAMETERS h)"
    by (simp_all add: recognized_def)
  have 1: "\<And>w'. identify_controller h e path fd w \<noteq> (Aborted Assert_0, w')"
    using really_exec_cmd_not_Assert_0[OF r1] unfolding identify_controller_def
    by (metis fst_conv)
  have 2: "\<And>w w'. sense_controller_parameters h e path fd w \<noteq> (Aborted Assert_0, w')"
    using really_exec_cmd_not_Assert_0[OF r2] unfolding sense_controller_parameters_def
    by (metis fst_conv)
  show ?thesis
    using 1 2 by (auto simp: print_info_def split: prod.splits result.splits)
qed

lemma run_action_not_Assert_0: "fst (run_action h e a p fd w) \<noteq> Aborted Assert_0"
  using print_info_not_Assert_0[of h e "path_str p" fd w]
  by (cases a) (simp_all add: run_action_def die_eq)

lemma main_not_Assert_0: "fst (main h e) \<noteq> Aborted Assert_0"
proof (cases e rule: parse_result_cases)
  case (usage msg)
  thus ?thesis by (simp add: main_usage)
next
  case (parsed a p)
  hence g: "getopt_loop (getopt_returns e) (ACTION_UNKNOWN, None) world0 = (Returned (a, p), world0)"
    by (simp add: parse_result_def)
  have ra: "\<And>fd w w'. run_action h e a p fd w \<noteq> (Aborted Assert_0, w')"
    using run_action_not_Assert_0 by (metis fst_conv)
  show ?thesis
    unfolding main_def g using ra
    by (auto simp: die_eq open_dev_def close_dev_def die_dev_errno_eq Let_def
        split: option.splits prod.splits result.splits)
qed

text \<open>
  C9. The recognized opcodes are the two of \<open>hpsa.h\<close>. For a recognized opcode the
  \<open>assert(0)\<close> of \<open>fill_cmd\<close> is not reached, in \<open>fill_cmd\<close> or through
  \<open>really_exec_cmd\<close>. For any other opcode it is, and \<open>really_exec_cmd\<close> aborts there:
  it makes no system call, writes nothing to stdout, and on stderr leaves only the
  diagnostic of the assertion, not a fatal line of the program. The size assertion holds
  for every size of at most \<open>2^16 - 1\<close>. No run of \<open>main\<close> reaches \<open>assert(0)\<close>.
\<close>

theorem unrecognized_opcode_asserts:
  "(recognized h cmd_num \<longleftrightarrow>
      cmd_num \<in> {BMIC_IDENTIFY_CONTROLLER h, BMIC_SENSE_CONTROLLER_PARAMETERS h}) \<and>
   (recognized h cmd_num \<longrightarrow>
      fill_cmd h cmd cmd_num b sz \<noteq> Inl Assert_0 \<and>
      fst (really_exec_cmd h ad se path fd cmd_num cmd_name b sz reply w) \<noteq> Aborted Assert_0) \<and>
   (\<not> recognized h cmd_num \<longrightarrow>
      fill_cmd h cmd cmd_num b sz = Inl Assert_0 \<and>
      fst (really_exec_cmd h ad se path fd cmd_num cmd_name b sz reply w) = Aborted Assert_0 \<and>
      syscalls (snd (really_exec_cmd h ad se path fd cmd_num cmd_name b sz reply w)) = syscalls w \<and>
      stdout (snd (really_exec_cmd h ad se path fd cmd_num cmd_name b sz reply w)) = stdout w \<and>
      stderr (snd (really_exec_cmd h ad se path fd cmd_num cmd_name b sz reply w))
        = stderr w @ ad Assert_0) \<and>
   (sz \<le> UINT16_MAX \<longrightarrow>
      set_cdb_buf_size cdb sz \<noteq> Inl Assert_size_le_UINT16_MAX \<and>
      fill_cmd h cmd cmd_num b sz \<noteq> Inl Assert_size_le_UINT16_MAX) \<and>
   fst (main h e) \<noteq> Aborted Assert_0"
proof -
  have 1: "recognized h cmd_num \<longleftrightarrow>
      cmd_num \<in> {BMIC_IDENTIFY_CONTROLLER h, BMIC_SENSE_CONTROLLER_PARAMETERS h}"
    by (auto simp: recognized_def)
  have 2: "recognized h cmd_num \<longrightarrow>
      fill_cmd h cmd cmd_num b sz \<noteq> Inl Assert_0 \<and>
      fst (really_exec_cmd h ad se path fd cmd_num cmd_name b sz reply w) \<noteq> Aborted Assert_0"
    using fill_cmd_ok[of h cmd_num sz cmd b] fill_cmd_too_big[of h cmd_num sz cmd b]
      really_exec_cmd_not_Assert_0[of h cmd_num ad se path fd cmd_name b sz reply w]
    by (cases "sz \<le> UINT16_MAX") auto
  have 3: "\<not> recognized h cmd_num \<longrightarrow>
      fill_cmd h cmd cmd_num b sz = Inl Assert_0 \<and>
      fst (really_exec_cmd h ad se path fd cmd_num cmd_name b sz reply w) = Aborted Assert_0 \<and>
      syscalls (snd (really_exec_cmd h ad se path fd cmd_num cmd_name b sz reply w)) = syscalls w \<and>
      stdout (snd (really_exec_cmd h ad se path fd cmd_num cmd_name b sz reply w)) = stdout w \<and>
      stderr (snd (really_exec_cmd h ad se path fd cmd_num cmd_name b sz reply w))
        = stderr w @ ad Assert_0"
    by (simp add: fill_cmd_unrecognized really_exec_cmd_unrecognized)
  have 4: "sz \<le> UINT16_MAX \<longrightarrow>
      set_cdb_buf_size cdb sz \<noteq> Inl Assert_size_le_UINT16_MAX \<and>
      fill_cmd h cmd cmd_num b sz \<noteq> Inl Assert_size_le_UINT16_MAX"
    using fill_cmd_ok[of h cmd_num sz cmd b] fill_cmd_unrecognized[of h cmd_num cmd b sz]
    by (cases "recognized h cmd_num") (auto simp: set_cdb_buf_size_def)
  show ?thesis using 1 2 3 4 main_not_Assert_0 by blast
qed

theorem unrecognized_opcode_asserts_witness:
  "recognized sample_h 0x11 \<and> recognized sample_h 0x64 \<and>
   fill_cmd sample_h (zero_cmd SENSEINFOBYTES) 0x11 0 404 \<noteq> Inl Assert_0 \<and>
   fill_cmd sample_h (zero_cmd SENSEINFOBYTES) 0x12 0 404 = Inl Assert_0 \<and>
   fst (really_exec_cmd sample_h sample_assert_text sample_strerror ''/dev/sg0'' 3 0x12 ''X'' 0 404
          ok_id_reply world0) = Aborted Assert_0 \<and>
   syscalls (snd (really_exec_cmd sample_h sample_assert_text sample_strerror ''/dev/sg0'' 3 0x12
                    ''X'' 0 404 ok_id_reply world0)) = [] \<and>
   stderr (snd (really_exec_cmd sample_h sample_assert_text sample_strerror ''/dev/sg0'' 3 0x12
                  ''X'' 0 404 ok_id_reply world0))
     = ''hpsahba: main.c:135: fill_cmd: Assertion '' @ [CHR 0x60] @ ''0'' @ [QUOTE]
         @ '' failed.'' @ [NL] \<and>
   (404 :: 64 word) \<le> UINT16_MAX \<and>
   fill_cmd sample_h (zero_cmd SENSEINFOBYTES) 0x11 0 404 \<noteq> Inl Assert_size_le_UINT16_MAX \<and>
   fst (main sample_h sample_env) \<noteq> Aborted Assert_0"
proof -
  have r1: "recognized sample_h 0x11" and r2: "recognized sample_h 0x64"
    and n: "\<not> recognized sample_h 0x12"
    by (simp_all add: recognized_def sample_h_def)
  have s: "(404 :: 64 word) \<le> UINT16_MAX" by (simp add: UINT16_MAX_def)
  have t: "stderr world0 @ sample_assert_text Assert_0
             = ''hpsahba: main.c:135: fill_cmd: Assertion '' @ [CHR 0x60] @ ''0'' @ [QUOTE]
                 @ '' failed.'' @ [NL]"
    by (simp add: sample_assert_text_def)
  have y: "syscalls world0 = []" by simp
  note a = unrecognized_opcode_asserts[of sample_h "0x11" "zero_cmd SENSEINFOBYTES" 0 404
      sample_assert_text sample_strerror "''/dev/sg0''" 3 "''X''" ok_id_reply world0
      "replicate 16 0" sample_env]
  note b = unrecognized_opcode_asserts[of sample_h "0x12" "zero_cmd SENSEINFOBYTES" 0 404
      sample_assert_text sample_strerror "''/dev/sg0''" 3 "''X''" ok_id_reply world0
      "replicate 16 0" sample_env]
  show ?thesis using a b r1 r2 n s unfolding t y by blast
qed







end
